theory Spec2Isabelle
  imports Complex_Main "HOL-Library.AList"
begin

section \<open>Health supervision: \<open>HealthCheckManager\<close> (main.js)\<close>

text \<open>
  The manager is a JavaScript object whose methods mutate its fields; the model passes the
  object as a record and returns the updated record. What the environment decides is an
  argument of the model:
  \<^item> \<open>Date.now()\<close> is the argument \<open>now\<close> (milliseconds, an integer);
  \<^item> the outcome of the \<open>k\<close>-th call of \<open>PortalUtils.request('/health')\<close> within one cycle
    is \<open>probe k\<close>;
  \<^item> JavaScript numbers are IEEE doubles, so every product is rounded. The rounding is the
    argument \<open>fl\<close>; a decimal literal \<open>c\<close> of the source denotes \<open>fl c\<close>. Exact arithmetic
    is the instance \<open>fl = (\<lambda>x. x)\<close>.
  Logging, notifications and DOM updates do not change the fields and are left out, except
  for the one DOM-free statement of \<open>updateUI\<close> that can throw.

  \<open>check\<close> is an \<open>async\<close> method that waits for its requests and delays. A cycle is one
  step of the model all the same: \<open>isChecking\<close> is set before the first wait and cleared in
  \<open>finally\<close>, and a call of \<open>check\<close> that finds it set returns at once, so no other cycle
  touches the fields while one is waiting.
\<close>

type_synonym rounding = "real \<Rightarrow> real"

text \<open>
  \<open>window.PortalConfig\<close>: the entries of \<open>systems\<close> in the order of the object literal
  (the display fields \<open>name\<close>, \<open>icon\<close> and \<open>color\<close> are left out), and the polling interval.
\<close>

record system_config =
  path :: "string option"
  url :: "string option"

record portal_config =
  systems :: "(string \<times> system_config) list"
  healthCheckInterval :: real

definition PortalConfig :: portal_config where
  "PortalConfig =
     \<lparr> systems =
         [(''writing'', \<lparr> path = Some ''/writing/'', url = Some ''/writing/'' \<rparr>),
          (''qa_sys'', \<lparr> path = Some ''/qa_sys'', url = Some ''/qa_sys'' \<rparr>),
          (''case2pg'', \<lparr> path = Some ''/case2pg'', url = Some ''/case2pg'' \<rparr>),
          (''censor'', \<lparr> path = Some ''/censor'', url = Some ''/censor'' \<rparr>)],
       healthCheckInterval = 60000 \<rparr>"

datatype js_error =
  RequestFailed
  | HttpStatusError
  | JsonSyntaxError
  | TypeError

record health_data =
  overall_status :: "string option"
  services :: "(string \<times> string) list option"
  hd_error :: "js_error option"
  consecutive_failures :: "nat option"

record response =
  ok :: bool
  body :: "health_data option"

datatype request_outcome = Threw | Returned response

datatype hc_event = Wait nat | Probe

record health_check_manager =
  isChecking :: bool
  retryCount :: nat
  maxRetries :: nat
  retryDelay :: nat
  consecutiveFailures :: nat
  maxConsecutiveFailures :: nat
  adaptiveInterval :: real
  lastSuccessTime :: "int option"
  errorHistory :: "(int \<times> js_error) list"
  maxErrorHistory :: nat
  circuitBreakerOpen :: bool
  circuitBreakerTimeout :: int
  lastCircuitBreakerReset :: "int option"
  systemHealth :: "health_data option"

text \<open>
  The constructor. The field \<open>systemHealth\<close> stands for \<open>window.PortalState.systemHealth\<close>,
  the published snapshot; \<open>None\<close> is its initial empty object.
\<close>

definition HealthCheckManager :: "portal_config \<Rightarrow> health_check_manager" where
  "HealthCheckManager cfg =
     \<lparr> isChecking = False, retryCount = 0, maxRetries = 3, retryDelay = 1000,
       consecutiveFailures = 0, maxConsecutiveFailures = 5,
       adaptiveInterval = healthCheckInterval cfg, lastSuccessTime = None,
       errorHistory = [], maxErrorHistory = 10, circuitBreakerOpen = False,
       circuitBreakerTimeout = 30000, lastCircuitBreakerReset = None,
       systemHealth = None \<rparr>"

text \<open>
  \<open>performHealthCheckWithRetry\<close>: the loop \<open>for (attempt = 0; attempt <= maxRetries; attempt++)\<close>
  from a given value of \<open>attempt\<close>. The result is the trace of waits and requests, and either
  the thrown error or the returned value (\<open>None\<close> is the \<open>undefined\<close> of falling out of the
  loop).
\<close>

definition attempt_result :: "request_outcome \<Rightarrow> js_error + response" where
  "attempt_result out =
     (case out of
        Threw \<Rightarrow> Inl RequestFailed
      | Returned r \<Rightarrow> if \<not> ok r then Inl HttpStatusError else Inr r)"

function retry_loop ::
  "health_check_manager \<Rightarrow> (nat \<Rightarrow> request_outcome) \<Rightarrow> nat
    \<Rightarrow> hc_event list \<times> (js_error + response option)" where
  "retry_loop s probe attempt =
     (if attempt \<le> maxRetries s then
        (let pre = (if attempt > 0 then [Wait (retryDelay s * 2 ^ (attempt - 1))] else [])
         in case attempt_result (probe attempt) of
              Inr r \<Rightarrow> (pre @ [Probe], Inr (Some r))
            | Inl e \<Rightarrow>
                if attempt = maxRetries s then (pre @ [Probe], Inl e)
                else (let (evs, res) = retry_loop s probe (attempt + 1)
                      in (pre @ [Probe] @ evs, res)))
      else ([], Inr None))"
  by pat_completeness auto
termination
  by (relation "measure (\<lambda>(s, probe, attempt). Suc (maxRetries s) - attempt)") auto

definition performHealthCheckWithRetry ::
  "health_check_manager \<Rightarrow> (nat \<Rightarrow> request_outcome)
    \<Rightarrow> hc_event list \<times> (js_error + response option)" where
  "performHealthCheckWithRetry s probe = retry_loop s probe 0"

text \<open>
  \<open>updateUI\<close> starts with \<open>Object.keys(healthData.services)\<close>, which throws a TypeError when
  \<open>services\<close> is missing; the rest of it only touches the DOM.
\<close>

definition updateUI :: "health_data \<Rightarrow> js_error option" where
  "updateUI d = (case services d of None \<Rightarrow> Some TypeError | Some _ \<Rightarrow> None)"

text \<open>
  \<open>onCheckSuccess\<close>: the fields are assigned before \<open>updateUI\<close> runs, so they keep their new
  values when it throws. The result is the state and the error thrown, if any.
\<close>

definition onCheckSuccess ::
  "rounding \<Rightarrow> portal_config \<Rightarrow> int \<Rightarrow> health_data \<Rightarrow> health_check_manager
    \<Rightarrow> health_check_manager \<times> js_error option" where
  "onCheckSuccess fl cfg now d s =
     (let s1 = s\<lparr> consecutiveFailures := 0, retryCount := 0, lastSuccessTime := Some now,
                  circuitBreakerOpen := False,
                  adaptiveInterval :=
                    max (healthCheckInterval cfg) (fl (adaptiveInterval s * fl (9 / 10))),
                  systemHealth := Some d \<rparr>
      in case updateUI d of
           Some e \<Rightarrow> (s1, Some e)
         | None \<Rightarrow>
             (if errorHistory s1 \<noteq> [] \<and> overall_status d = Some ''healthy''
              then (s1\<lparr> errorHistory := [] \<rparr>, None)
              else (s1, None)))"

definition onCheckFailure ::
  "rounding \<Rightarrow> portal_config \<Rightarrow> int \<Rightarrow> js_error \<Rightarrow> health_check_manager
    \<Rightarrow> health_check_manager" where
  "onCheckFailure fl cfg now err s =
     (let n = consecutiveFailures s + 1;
          h = errorHistory s @ [(now, err)];
          h' = (if length h > maxErrorHistory s then tl h else h);
          s1 = s\<lparr> consecutiveFailures := n, errorHistory := h',
                  adaptiveInterval :=
                    min (fl (adaptiveInterval s * fl (3 / 2)))
                        (fl (healthCheckInterval cfg * fl 5)) \<rparr>;
          s2 = (if n \<ge> maxConsecutiveFailures s1
                then s1\<lparr> circuitBreakerOpen := True, lastCircuitBreakerReset := Some now \<rparr>
                else s1)
      in s2\<lparr> systemHealth :=
               Some \<lparr> overall_status = Some ''error'', services = Some [],
                      hd_error = Some err, consecutive_failures = Some n \<rparr> \<rparr>)"

text \<open>
  The guard of \<open>check\<close> on the breaker:
  \<open>this.lastCircuitBreakerReset && (now - this.lastCircuitBreakerReset) < this.circuitBreakerTimeout\<close>.
  A number is truthy when it is not 0; \<open>null\<close> is falsy.
\<close>

definition cooling_down :: "health_check_manager \<Rightarrow> int \<Rightarrow> bool" where
  "cooling_down s now =
     (case lastCircuitBreakerReset s of
        None \<Rightarrow> False
      | Some t \<Rightarrow> t \<noteq> 0 \<and> now - t < circuitBreakerTimeout s)"

text \<open>
  The body of the \<open>try\<close> block of \<open>check\<close>: the state when the block ends or throws, and the
  error thrown, if any. \<open>response.json()\<close> throws a TypeError on \<open>undefined\<close> and a
  SyntaxError on a body that is not JSON.
\<close>

definition try_block ::
  "rounding \<Rightarrow> portal_config \<Rightarrow> int \<Rightarrow> health_check_manager \<Rightarrow> js_error + response option
    \<Rightarrow> health_check_manager \<times> js_error option" where
  "try_block fl cfg now s res =
     (case res of
        Inl e \<Rightarrow> (s, Some e)
      | Inr None \<Rightarrow> (s, Some TypeError)
      | Inr (Some r) \<Rightarrow>
          (case body r of
             None \<Rightarrow> (s, Some JsonSyntaxError)
           | Some d \<Rightarrow> onCheckSuccess fl cfg now d s))"

text \<open>
  \<open>check\<close>, one cycle. The result is the trace of the cycle and what the caller of
  \<open>check\<close> sees: \<open>Inl\<close> a rejection of the promise, \<open>Inr\<close> the state after a normal return.
\<close>

definition check ::
  "rounding \<Rightarrow> portal_config \<Rightarrow> health_check_manager \<Rightarrow> int \<Rightarrow> (nat \<Rightarrow> request_outcome)
    \<Rightarrow> hc_event list \<times> (js_error + health_check_manager)" where
  "check fl cfg s now probe =
     (if isChecking s then ([], Inr s)
      else if circuitBreakerOpen s \<and> cooling_down s now then ([], Inr s)
      else
        (let s0 = (if circuitBreakerOpen s
                   then s\<lparr> circuitBreakerOpen := False, consecutiveFailures := 0 \<rparr>
                   else s);
             s1 = s0\<lparr> isChecking := True \<rparr>;
             (evs, res) = performHealthCheckWithRetry s1 probe;
             (s2, thrown) = try_block fl cfg now s1 res;
             s3 = (case thrown of None \<Rightarrow> s2 | Some e \<Rightarrow> onCheckFailure fl cfg now e s2)
         in (evs, Inr (s3\<lparr> isChecking := False \<rparr>))))"

text \<open>A run of the self-rescheduling loop: one \<open>check\<close> per scheduled time.\<close>

fun run_checks ::
  "rounding \<Rightarrow> portal_config \<Rightarrow> health_check_manager \<Rightarrow> (int \<times> (nat \<Rightarrow> request_outcome)) list
    \<Rightarrow> js_error + health_check_manager" where
  "run_checks fl cfg s [] = Inr s"
| "run_checks fl cfg s ((now, probe) # cs) =
     (case snd (check fl cfg s now probe) of
        Inl e \<Rightarrow> Inl e
      | Inr s' \<Rightarrow> run_checks fl cfg s' cs)"












text \<open>The state in which \<open>check\<close> starts its probe: a half-open breaker is reset first.\<close>

definition begin_cycle :: "health_check_manager \<Rightarrow> health_check_manager" where
  "begin_cycle s =
     (if circuitBreakerOpen s then s\<lparr> circuitBreakerOpen := False, consecutiveFailures := 0 \<rparr>
      else s) \<lparr> isChecking := True \<rparr>"

text \<open>
  What the proofs use of IEEE rounding: it is monotone, it leaves a representable number
  alone, and 1 is representable.
\<close>

definition sound_rounding :: "rounding \<Rightarrow> bool" where
  "sound_rounding fl \<longleftrightarrow>
     (\<forall>x y. x \<le> y \<longrightarrow> fl x \<le> fl y) \<and> (\<forall>x. fl (fl x) = fl x) \<and> fl 1 = 1"

definition interval_ok :: "rounding \<Rightarrow> portal_config \<Rightarrow> health_check_manager \<Rightarrow> bool" where
  "interval_ok fl cfg s \<longleftrightarrow>
     healthCheckInterval cfg \<le> adaptiveInterval s \<and>
     adaptiveInterval s \<le> fl (healthCheckInterval cfg * fl 5) \<and>
     fl (adaptiveInterval s) = adaptiveInterval s"

text \<open>Concrete inputs for the examples below.\<close>

definition good_response :: response where
  "good_response = \<lparr> ok = True, body = Some \<lparr> overall_status = Some ''healthy'',
      services = Some [(''writing'', ''healthy'')], hd_error = None,
      consecutive_failures = None \<rparr> \<rparr>"




section \<open>Service control: \<open>ServiceManager\<close>\<close>

text \<open>
  The manager keeps no status field of its own: the status of a service is the
  \<open>data-status\<close> attribute that \<open>updateServiceStatus\<close> writes on the service's card, and the
  method returns at once when the card is missing. \<open>serviceStatus\<close> maps the services that
  have a card to that attribute. \<open>commands\<close> is the trace of the POST requests sent to the
  process supervisor, \<open>scheduledChecks\<close> the confirmatory probes set up with \<open>setTimeout\<close>,
  and \<open>openTabRequests\<close> the calls of \<open>window.tabManager.openTab\<close>.
\<close>

datatype service_status = Running | Stopped | Starting | Stopping | Unknown

datatype command = StartCommand string | StopCommand string

text \<open>
  The outcome of \<open>fetch\<close> followed by \<open>response.json()\<close>: either of them throws, or the
  parsed body carries \<open>success\<close>.
\<close>

datatype fetch_outcome = FetchThrew | FetchReturned bool

record service_manager =
  serviceStatus :: "string \<rightharpoonup> service_status"
  commands :: "command list"
  scheduledChecks :: "string list"
  openTabRequests :: "string list"

definition updateServiceStatus ::
  "string \<Rightarrow> service_status \<Rightarrow> service_manager \<Rightarrow> service_manager" where
  "updateServiceStatus serviceName st s =
     (case serviceStatus s serviceName of
        None \<Rightarrow> s
      | Some _ \<Rightarrow> s\<lparr> serviceStatus := (serviceStatus s)(serviceName \<mapsto> st) \<rparr>)"

text \<open>
  \<open>startService\<close> is an \<open>async\<close> method. \<open>startService_call\<close> is the part that runs when it
  is called, up to \<open>await fetch(...)\<close>: the card is set to \<open>starting\<close> and the POST request is
  sent. \<open>startService_resume\<close> is the part that runs when the request has settled: the
  value the promise resolves to, and the state. \<open>startService\<close> is a call whose request
  settles before anything else happens.
\<close>

definition startService_call :: "string \<Rightarrow> service_manager \<Rightarrow> service_manager" where
  "startService_call serviceName s =
     (let s1 = updateServiceStatus serviceName Starting s
      in s1\<lparr> commands := commands s1 @ [StartCommand serviceName] \<rparr>)"

definition startService_resume ::
  "string \<Rightarrow> fetch_outcome \<Rightarrow> service_manager \<Rightarrow> bool \<times> service_manager" where
  "startService_resume serviceName outcome s =
     (case outcome of
        FetchReturned True \<Rightarrow>
          (let s3 = updateServiceStatus serviceName Running s;
               s4 = (if serviceName = ''writing''
                     then s3\<lparr> openTabRequests := openTabRequests s3 @ [''writing''] \<rparr>
                     else s3)
           in (True, s4\<lparr> scheduledChecks := scheduledChecks s4 @ [serviceName] \<rparr>))
      | FetchReturned False \<Rightarrow> (False, updateServiceStatus serviceName Stopped s)
      | FetchThrew \<Rightarrow> (False, updateServiceStatus serviceName Stopped s))"

definition startService ::
  "string \<Rightarrow> fetch_outcome \<Rightarrow> service_manager \<Rightarrow> bool \<times> service_manager" where
  "startService serviceName outcome s =
     startService_resume serviceName outcome (startService_call serviceName s)"

definition start_commands :: "string \<Rightarrow> service_manager \<Rightarrow> nat" where
  "start_commands serviceName s =
     length (filter (\<lambda>c. c = StartCommand serviceName) (commands s))"

definition running_censor :: service_manager where
  "running_censor =
     \<lparr> serviceStatus = [''censor'' \<mapsto> Running], commands = [], scheduledChecks = [],
       openTabRequests = [] \<rparr>"

section \<open>Tab registry: \<open>TabManager\<close>\<close>

text \<open>
  A tab id is the string \<open>'welcome'\<close> or \<open>`tab-${systemName}-${++this.tabCounter}`\<close>; the
  counter is written in decimal, so the two parts determine the string and the model keeps
  the parts. \<open>this.tabs\<close> is a JavaScript \<open>Map\<close>, which iterates in insertion order: an
  association list, read with \<open>map_of\<close>, written with \<open>AList.update\<close> (in place for a key
  that is present, at the end otherwise) and \<open>AList.delete\<close>. The tab objects are mutated
  through the map, which \<open>modify_tab\<close> does by key. \<open>Date.now()\<close> is the argument \<open>now\<close>.
  A field that the source leaves \<open>undefined\<close> or \<open>null\<close> is \<open>None\<close>.
  The methods touch the DOM only to render; what they read of the page (whether
  \<open>#tabList\<close> exists, whether a tab's iframe is in the document) is an argument.
\<close>

datatype tab_id = WelcomeId | TabId string nat

datatype tab_type = Welcome | System

datatype tab_status = Pending | Loading | Loaded | Unloaded | Error

record tab =
  tab_id :: tab_id
  tab_type :: tab_type
  system :: "string option"
  tab_url :: "string option"
  isClosable :: bool
  isActive :: bool
  status :: "tab_status option"
  isLoaded :: bool
  createTime :: "int option"
  lastActiveTime :: "int option"
  loadStartTime :: "int option"
  loadTime :: "int option"
  priority :: "string option"

text \<open>
  The \<open>options\<close> argument of \<open>openTab\<close>, as its callers build it: \<open>priority\<close> (absent is
  \<open>None\<close>) and \<open>immediate\<close> (absent is \<open>False\<close>). The spread \<open>...options\<close> at the end of the
  object literal copies the two properties into the tab; \<open>priority\<close> thereby overrides the
  default \<open>'normal'\<close>, and \<open>immediate\<close>, which nothing reads from the tab, is not kept.
\<close>

record tab_options =
  opt_priority :: "string option"
  immediate :: bool

text \<open>
  Beside the fields of the class, the state holds what is suspended on the event loop:
  \<open>closeDialogs\<close>, the calls of \<open>closeTab\<close> waiting at \<open>await this.showCloseConfirmation(tab)\<close>,
  and \<open>idleCallbacks\<close>, the callbacks registered by \<open>scheduleTabLoad\<close>. \<open>inactiveTabTimers\<close> is
  the key set of the map of that name, \<open>lazyLoadQueue\<close> a \<open>Set\<close> in insertion order, and
  \<open>currentSystem\<close> is \<open>window.PortalState.currentSystem\<close>.
\<close>

record tab_manager =
  tabs :: "(tab_id \<times> tab) list"
  activeTab :: "tab_id option"
  tabCounter :: nat
  lazyLoadQueue :: "tab_id list"
  maxTabs :: nat
  inactiveTabTimeout :: int
  inactiveTabTimers :: "tab_id list"
  closeDialogs :: "tab_id list"
  idleCallbacks :: "tab_id list"
  currentSystem :: "string option"

definition set_add :: "'a \<Rightarrow> 'a list \<Rightarrow> 'a list" where
  "set_add x xs = (if x \<in> set xs then xs else xs @ [x])"

definition modify_tab :: "tab_id \<Rightarrow> (tab \<Rightarrow> tab) \<Rightarrow> (tab_id \<times> tab) list \<Rightarrow> (tab_id \<times> tab) list" where
  "modify_tab tabId f ts = map (\<lambda>(k, t). if k = tabId then (k, f t) else (k, t)) ts"

definition welcomeTab :: tab where
  "welcomeTab =
     \<lparr> tab_id = WelcomeId, tab_type = Welcome, system = None, tab_url = None,
       isClosable = False, isActive = True, status = None, isLoaded = False,
       createTime = None, lastActiveTime = None, loadStartTime = None, loadTime = None,
       priority = None \<rparr>"

definition createWelcomeTab :: "tab_manager \<Rightarrow> tab_manager" where
  "createWelcomeTab s =
     s\<lparr> tabs := AList.update WelcomeId welcomeTab (tabs s), activeTab := Some WelcomeId \<rparr>"

text \<open>
  The constructor. \<open>createTabNavigation\<close> creates the welcome tab only when the page has
  the element \<open>#tabList\<close>, which is the argument.
\<close>

definition TabManager :: "bool \<Rightarrow> tab_manager" where
  "TabManager has_tabList =
     (let s = \<lparr> tabs = [], activeTab = None, tabCounter = 0, lazyLoadQueue = [],
                 maxTabs = 10, inactiveTabTimeout = 300000, inactiveTabTimers = [],
                 closeDialogs = [], idleCallbacks = [], currentSystem = None \<rparr>
      in if has_tabList then createWelcomeTab s else s)"

definition findTabBySystem :: "tab_manager \<Rightarrow> string \<Rightarrow> tab option" where
  "findTabBySystem s systemName =
     find (\<lambda>t. system t = Some systemName) (map snd (tabs s))"

definition loadTabContent :: "int \<Rightarrow> tab_id \<Rightarrow> tab_manager \<Rightarrow> tab_manager" where
  "loadTabContent now tabId s =
     (case map_of (tabs s) tabId of
        None \<Rightarrow> s
      | Some t \<Rightarrow>
          if tab_type t \<noteq> System \<or> isLoaded t then s
          else s\<lparr> lazyLoadQueue := removeAll tabId (lazyLoadQueue s),
                  tabs := modify_tab tabId
                    (\<lambda>t. t\<lparr> status := Some Loading, loadStartTime := Some now, isLoaded := True \<rparr>)
                    (tabs s) \<rparr>)"

text \<open>
  \<open>activateTab\<close>: the timer of the tab that was active is cleared; every tab that is active
  is deactivated, stamped and given an unload timer (\<open>scheduleTabUnload\<close>); the tab is made
  active and stamped; a system tab that is not loaded is loaded.
\<close>

definition activateTab :: "int \<Rightarrow> tab_id \<Rightarrow> tab_manager \<Rightarrow> tab_manager" where
  "activateTab now tabId s =
     (case map_of (tabs s) tabId of
        None \<Rightarrow> s
      | Some t \<Rightarrow>
          (let timers0 = (case activeTab s of
                            None \<Rightarrow> inactiveTabTimers s
                          | Some a \<Rightarrow> removeAll a (inactiveTabTimers s));
               wasActive = map fst (filter (\<lambda>(k, u). isActive u) (tabs s));
               tabs1 = map (\<lambda>(k, u). if isActive u
                                      then (k, u\<lparr> isActive := False, lastActiveTime := Some now \<rparr>)
                                      else (k, u)) (tabs s);
               tabs2 = modify_tab tabId (\<lambda>u. u\<lparr> isActive := True, lastActiveTime := Some now \<rparr>) tabs1;
               s1 = s\<lparr> tabs := tabs2, inactiveTabTimers := fold set_add wasActive timers0,
                       activeTab := Some tabId \<rparr>;
               s2 = (if \<not> isLoaded t \<and> tab_type t = System then loadTabContent now tabId s1 else s1)
           in s2\<lparr> currentSystem := (if tab_type t = System then system t else None) \<rparr>))"

text \<open>
  \<open>activateNextTab\<close>: the welcome tab when the registry has one, else the last key of the
  map, else nothing.
\<close>

definition activateNextTab :: "int \<Rightarrow> tab_manager \<Rightarrow> tab_manager" where
  "activateNextTab now s =
     (if tabs s = [] then s
      else case find (\<lambda>(k, t). tab_type t = Welcome) (tabs s) of
             Some (k, t) \<Rightarrow> activateTab now k s
           | None \<Rightarrow> activateTab now (fst (last (tabs s))) s)"

text \<open>
  \<open>closeTab\<close> is an \<open>async\<close> method. \<open>closeTab\<close> below is the part that runs when it is
  called: for a system tab with \<open>confirmClose\<close> it stops at the confirmation dialog.
  \<open>answerCloseDialog\<close> is the part that runs when the user answers: \<open>None\<close> is cancel,
  \<open>Some False\<close> close only, \<open>Some True\<close> stop the service and close (the request to stop the
  service does not touch the registry and is left out). \<open>finishClose\<close> is the common rest.
\<close>

definition finishClose :: "int \<Rightarrow> tab_id \<Rightarrow> tab_manager \<Rightarrow> tab_manager" where
  "finishClose now tabId s =
     (let s1 = s\<lparr> inactiveTabTimers := removeAll tabId (inactiveTabTimers s),
                  lazyLoadQueue := removeAll tabId (lazyLoadQueue s),
                  tabs := AList.delete tabId (tabs s) \<rparr>
      in if activeTab s1 = Some tabId then activateNextTab now s1 else s1)"

definition closeTab :: "int \<Rightarrow> tab_id \<Rightarrow> bool \<Rightarrow> tab_manager \<Rightarrow> tab_manager" where
  "closeTab now tabId confirmClose s =
     (case map_of (tabs s) tabId of
        None \<Rightarrow> s
      | Some t \<Rightarrow>
          if \<not> isClosable t then s
          else if tab_type t = System \<and> system t \<noteq> None \<and> system t \<noteq> Some [] \<and> confirmClose
          then s\<lparr> closeDialogs := closeDialogs s @ [tabId] \<rparr>
          else finishClose now tabId s)"

definition answerCloseDialog :: "int \<Rightarrow> tab_id \<Rightarrow> bool option \<Rightarrow> tab_manager \<Rightarrow> tab_manager" where
  "answerCloseDialog now tabId answer s =
     (if tabId \<notin> set (closeDialogs s) then s
      else (let s1 = s\<lparr> closeDialogs := remove1 tabId (closeDialogs s) \<rparr>
            in case answer of
                 None \<Rightarrow> s1
               | Some stopService \<Rightarrow> finishClose now tabId s1))"

text \<open>
  \<open>closeOldestInactiveTab\<close>: the loop over \<open>this.tabs.values()\<close> with its two variables
  \<open>oldestTab\<close> and \<open>oldestTime\<close>, then \<open>this.closeTab(oldestTab.id)\<close> with the default
  \<open>confirmClose = true\<close>. A comparison with \<open>undefined\<close> is false.
\<close>

fun scan_oldest :: "tab list \<Rightarrow> tab option \<Rightarrow> int \<Rightarrow> tab option" where
  "scan_oldest [] oldestTab oldestTime = oldestTab"
| "scan_oldest (t # ts) oldestTab oldestTime =
     (case lastActiveTime t of
        None \<Rightarrow> scan_oldest ts oldestTab oldestTime
      | Some x \<Rightarrow>
          if isClosable t \<and> \<not> isActive t \<and> x < oldestTime
          then scan_oldest ts (Some t) x
          else scan_oldest ts oldestTab oldestTime)"

definition oldestInactiveTab :: "int \<Rightarrow> tab_manager \<Rightarrow> tab option" where
  "oldestInactiveTab now s = scan_oldest (map snd (tabs s)) None now"

definition closeOldestInactiveTab :: "int \<Rightarrow> tab_manager \<Rightarrow> tab_manager" where
  "closeOldestInactiveTab now s =
     (case oldestInactiveTab now s of
        None \<Rightarrow> s
      | Some t \<Rightarrow> closeTab now (tab_id t) True s)"

definition scheduleTabLoad :: "tab_id \<Rightarrow> tab_manager \<Rightarrow> tab_manager" where
  "scheduleTabLoad tabId s = s\<lparr> idleCallbacks := idleCallbacks s @ [tabId] \<rparr>"

text \<open>The callback that \<open>scheduleTabLoad\<close> registered, when the browser runs it.\<close>

definition idleCallback :: "int \<Rightarrow> tab_id \<Rightarrow> tab_manager \<Rightarrow> tab_manager" where
  "idleCallback now tabId s =
     (if tabId \<notin> set (idleCallbacks s) then s
      else (let s1 = s\<lparr> idleCallbacks := remove1 tabId (idleCallbacks s) \<rparr>
            in if tabId \<in> set (lazyLoadQueue s1) then loadTabContent now tabId s1 else s1))"

text \<open>
  \<open>window.PortalConfig.systems[systemName]\<close> is a property read on the object that the
  literal \<open>systems: { ... }\<close> creates. It finds the entries of the literal and, for a name
  that is not among them, the properties that every such object inherits from
  \<open>Object.prototype\<close>; for any other name it is \<open>undefined\<close>. The inherited properties are
  the functions of \<open>Object.prototype\<close> and, under \<open>__proto__\<close>, \<open>Object.prototype\<close> itself:
  values that pass the test \<open>if (!systemConfig)\<close> and have neither a \<open>path\<close> nor a \<open>url\<close>.
\<close>

definition object_prototype_names :: "string list" where
  "object_prototype_names =
     [''constructor'', ''hasOwnProperty'', ''isPrototypeOf'', ''propertyIsEnumerable'',
      ''toLocaleString'', ''toString'', ''valueOf'', ''__proto__'', ''__defineGetter__'',
      ''__defineSetter__'', ''__lookupGetter__'', ''__lookupSetter__'']"

definition inherited_property :: system_config where
  "inherited_property = \<lparr> path = None, url = None \<rparr>"

definition systems_property :: "portal_config \<Rightarrow> string \<Rightarrow> system_config option" where
  "systems_property cfg systemName =
     (case map_of (systems cfg) systemName of
        Some systemConfig \<Rightarrow> Some systemConfig
      | None \<Rightarrow> if systemName \<in> set object_prototype_names then Some inherited_property
                else None)"

text \<open>The object literal of \<open>openTab\<close>, and \<open>openTab\<close> itself.\<close>

definition new_tab :: "int \<Rightarrow> string \<Rightarrow> system_config \<Rightarrow> tab_options \<Rightarrow> tab_id \<Rightarrow> tab" where
  "new_tab now systemName systemConfig options tabId =
     \<lparr> tab_id = tabId, tab_type = System, system = Some systemName,
       tab_url = (case path systemConfig of
                    None \<Rightarrow> url systemConfig
                  | Some p \<Rightarrow> if p = [] then url systemConfig else Some p),
       isClosable = True, isActive = False, status = Some Pending, isLoaded = False,
       createTime = Some now, lastActiveTime = Some now, loadStartTime = None, loadTime = None,
       priority = (case opt_priority options of None \<Rightarrow> Some ''normal'' | Some p \<Rightarrow> Some p) \<rparr>"

definition openTab ::
  "portal_config \<Rightarrow> int \<Rightarrow> string \<Rightarrow> tab_options \<Rightarrow> tab_manager \<Rightarrow> tab_manager" where
  "openTab cfg now systemName options s =
     (case systems_property cfg systemName of
        None \<Rightarrow> s
      | Some systemConfig \<Rightarrow>
          (case findTabBySystem s systemName of
             Some existingTab \<Rightarrow> activateTab now (tab_id existingTab) s
           | None \<Rightarrow>
               (let s1 = (if length (tabs s) \<ge> maxTabs s then closeOldestInactiveTab now s else s);
                    n = tabCounter s1 + 1;
                    tabId = TabId systemName n;
                    s2 = s1\<lparr> tabCounter := n,
                            tabs := AList.update tabId
                              (new_tab now systemName systemConfig options tabId) (tabs s1) \<rparr>;
                    s3 = activateTab now tabId s2;
                    s4 = (if opt_priority options = Some ''high'' \<or> immediate options
                          then loadTabContent now tabId s3
                          else scheduleTabLoad tabId
                                 (s3\<lparr> lazyLoadQueue := set_add tabId (lazyLoadQueue s3) \<rparr>))
                in s4\<lparr> currentSystem := Some systemName \<rparr>)))"

text \<open>
  The handlers of the iframe's \<open>load\<close> and \<open>error\<close> events, the unload timer
  (\<open>unloadInactiveTab\<close>, which acts only when the tab's iframe is in the document) and
  \<open>destroy\<close>.
\<close>

definition onIframeLoad :: "int \<Rightarrow> tab_id \<Rightarrow> tab_manager \<Rightarrow> tab_manager" where
  "onIframeLoad now tabId s =
     (let s1 = s\<lparr> tabs := modify_tab tabId
                  (\<lambda>t. (case loadStartTime t of
                           None \<Rightarrow> t
                         | Some t0 \<Rightarrow> if t0 = 0 then t
                                      else t\<lparr> loadTime := Some (now - t0), loadStartTime := None \<rparr>)
                        \<lparr> status := Some Loaded \<rparr>)
                  (tabs s) \<rparr>
      in case lazyLoadQueue s1 of
           [] \<Rightarrow> s1
         | nextTabId # _ \<Rightarrow> scheduleTabLoad nextTabId s1)"

definition onIframeError :: "tab_id \<Rightarrow> tab_manager \<Rightarrow> tab_manager" where
  "onIframeError tabId s =
     s\<lparr> tabs := modify_tab tabId (\<lambda>t. t\<lparr> status := Some Error \<rparr>) (tabs s) \<rparr>"

definition unloadInactiveTab :: "tab_id \<Rightarrow> bool \<Rightarrow> tab_manager \<Rightarrow> tab_manager" where
  "unloadInactiveTab tabId has_iframe s =
     (case map_of (tabs s) tabId of
        None \<Rightarrow> s
      | Some t \<Rightarrow>
          if isActive t \<or> tab_type t \<noteq> System \<or> \<not> has_iframe then s
          else s\<lparr> tabs := modify_tab tabId
                    (\<lambda>t. t\<lparr> isLoaded := False, status := Some Unloaded \<rparr>) (tabs s) \<rparr>)"

definition destroy :: "tab_manager \<Rightarrow> tab_manager" where
  "destroy s =
     s\<lparr> inactiveTabTimers := [], tabs := [], lazyLoadQueue := [], activeTab := None \<rparr>"

text \<open>
  One turn of the event loop on the registry: a call of the public interface or a callback
  the browser runs, each at its time.
\<close>

datatype tab_event =
  OpenTab string tab_options
  | ActivateTab tab_id
  | CloseTab tab_id bool
  | AnswerCloseDialog tab_id "bool option"
  | IdleCallback tab_id
  | IframeLoad tab_id
  | IframeError tab_id
  | UnloadTimer tab_id bool
  | Destroy

fun tab_step :: "portal_config \<Rightarrow> tab_manager \<Rightarrow> int \<times> tab_event \<Rightarrow> tab_manager" where
  "tab_step cfg s (now, OpenTab systemName options) = openTab cfg now systemName options s"
| "tab_step cfg s (now, ActivateTab tabId) = activateTab now tabId s"
| "tab_step cfg s (now, CloseTab tabId confirmClose) = closeTab now tabId confirmClose s"
| "tab_step cfg s (now, AnswerCloseDialog tabId answer) = answerCloseDialog now tabId answer s"
| "tab_step cfg s (now, IdleCallback tabId) = idleCallback now tabId s"
| "tab_step cfg s (now, IframeLoad tabId) = onIframeLoad now tabId s"
| "tab_step cfg s (now, IframeError tabId) = onIframeError tabId s"
| "tab_step cfg s (now, UnloadTimer tabId has_iframe) = unloadInactiveTab tabId has_iframe s"
| "tab_step cfg s (now, Destroy) = destroy s"

definition tab_run :: "portal_config \<Rightarrow> tab_manager \<Rightarrow> (int \<times> tab_event) list \<Rightarrow> tab_manager" where
  "tab_run cfg s evs = foldl (tab_step cfg) s evs"

definition no_options :: tab_options where
  "no_options = \<lparr> opt_priority = None, immediate = False \<rparr>"

section \<open>Notions used to state the properties of the registry\<close>

text \<open>
  A tab that \<open>closeOldestInactiveTab\<close> may select: closable and not active.
\<close>

definition eviction_candidate :: "tab \<Rightarrow> bool" where
  "eviction_candidate t \<longleftrightarrow> isClosable t \<and> \<not> isActive t"

text \<open>The tabs of the registry that belong to a system.\<close>

definition tabs_of_system :: "tab_manager \<Rightarrow> string \<Rightarrow> (tab_id \<times> tab) list" where
  "tabs_of_system s systemName = filter (\<lambda>(k, t). system t = Some systemName) (tabs s)"

text \<open>
  What no method changes in an entry of the registry: its key, the \<open>id\<close> of the tab and its
  \<open>system\<close>. The invariant of the registry is stated on this skeleton: the keys are
  distinct, every tab sits under its own \<open>id\<close>, and no two tabs have the same system.
\<close>

definition skeleton :: "(tab_id \<times> tab) list \<Rightarrow> (tab_id \<times> tab_id \<times> string option) list" where
  "skeleton ts = map (\<lambda>(k, t). (k, tab_id t, system t)) ts"

definition skeleton_ok :: "(tab_id \<times> tab_id \<times> string option) list \<Rightarrow> bool" where
  "skeleton_ok sk \<longleftrightarrow>
     distinct (map fst sk) \<and> (\<forall>p \<in> set sk. fst (snd p) = fst p) \<and>
     (\<forall>name. length (filter (\<lambda>p. snd (snd p) = Some name) sk) \<le> 1)"

definition registry_ok :: "tab_manager \<Rightarrow> bool" where
  "registry_ok s \<longleftrightarrow> skeleton_ok (skeleton (tabs s))"

text \<open>
  Every tab without a system is the welcome tab, and every system that has a tab is
  configured. This holds as long as \<open>openTab\<close> is not called with a name that
  \<open>PortalConfig.systems\<close> inherits.
\<close>

definition entry_ok :: "portal_config \<Rightarrow> tab_id \<times> tab_id \<times> string option \<Rightarrow> bool" where
  "entry_ok cfg p \<longleftrightarrow>
     (snd (snd p) = None \<longrightarrow> fst p = WelcomeId) \<and>
     (\<forall>n. snd (snd p) = Some n \<longrightarrow> n \<in> fst ` set (systems cfg))"

definition configured :: "portal_config \<Rightarrow> tab_manager \<Rightarrow> bool" where
  "configured cfg s \<longleftrightarrow> (\<forall>p \<in> set (skeleton (tabs s)). entry_ok cfg p)"

definition opens_own_name :: "int \<times> tab_event \<Rightarrow> bool" where
  "opens_own_name e =
     (case snd e of
        OpenTab systemName options \<Rightarrow> systemName \<notin> set object_prototype_names
      | _ \<Rightarrow> True)"

text \<open>What the loop of \<open>activateTab\<close> does to one tab.\<close>

definition deactivate :: "int \<Rightarrow> tab \<Rightarrow> tab" where
  "deactivate now u = (if isActive u then u\<lparr> isActive := False, lastActiveTime := Some now \<rparr> else u)"

text \<open>The condition under which \<open>closeTab\<close> shows its confirmation dialog.\<close>

definition asks_confirmation :: "tab \<Rightarrow> bool \<Rightarrow> bool" where
  "asks_confirmation t confirmClose \<longleftrightarrow>
     tab_type t = System \<and> system t \<noteq> None \<and> system t \<noteq> Some [] \<and> confirmClose"

text \<open>
  The tab to activate after the active tab was closed, in the words of the comment in
  \<open>activateNextTab\<close>: the welcome tab first, and without one the last tab.
\<close>

definition next_tab :: "(tab_id \<times> tab) list \<Rightarrow> tab_id option" where
  "next_tab ts =
     (case find (\<lambda>(k, t). tab_type t = Welcome) ts of
        Some (k, t) \<Rightarrow> Some k
      | None \<Rightarrow> if ts = [] then None else Some (fst (last ts)))"

subsection \<open>Concrete registries and runs\<close>

text \<open>The shipped page after two systems were opened; the second one is active.\<close>

definition two_open :: tab_manager where
  "two_open = tab_run PortalConfig (TabManager True)
     [(1, OpenTab ''writing'' no_options), (2, OpenTab ''case2pg'' no_options)]"

text \<open>
  A run on a page without \<open>#tabList\<close>, hence without the welcome tab: three systems are
  opened, the first is visited again, then the third.
\<close>

definition no_welcome_run :: "(int \<times> tab_event) list" where
  "no_welcome_run =
     [(1, OpenTab ''writing'' no_options), (2, OpenTab ''case2pg'' no_options),
      (3, OpenTab ''censor'' no_options), (4, ActivateTab (TabId ''writing'' 1)),
      (5, ActivateTab (TabId ''censor'' 3))]"

text \<open>A configuration with ten systems, and the run that opens them one after the other.\<close>

definition ten_systems :: portal_config where
  "ten_systems =
     \<lparr> systems = map (\<lambda>n. (n, \<lparr> path = Some (''/'' @ n), url = Some (''/'' @ n) \<rparr>))
         [''s0'', ''s1'', ''s2'', ''s3'', ''s4'', ''s5'', ''s6'', ''s7'', ''s8'', ''s9''],
       healthCheckInterval = 60000 \<rparr>"

definition open_ten :: "(int \<times> tab_event) list" where
  "open_ten =
     [(1, OpenTab ''s0'' no_options), (2, OpenTab ''s1'' no_options),
      (3, OpenTab ''s2'' no_options), (4, OpenTab ''s3'' no_options),
      (5, OpenTab ''s4'' no_options), (6, OpenTab ''s5'' no_options),
      (7, OpenTab ''s6'' no_options), (8, OpenTab ''s7'' no_options),
      (9, OpenTab ''s8'' no_options), (10, OpenTab ''s9'' no_options)]"

text \<open>
  The capacity scenario of the specification: the limit is set to 2 on the shipped page,
  and \<open>writing\<close>, \<open>case2pg\<close> and \<open>censor\<close> are opened.
\<close>

definition capacity_two :: tab_manager where
  "capacity_two = (TabManager True) \<lparr> maxTabs := 2 \<rparr>"

definition scenario_run :: "(int \<times> tab_event) list" where
  "scenario_run =
     [(1, OpenTab ''writing'' no_options), (2, OpenTab ''case2pg'' no_options),
      (3, OpenTab ''censor'' no_options)]"

text \<open>
  A run for the eviction order, with the ten systems and the limit of the constructor:
  nine systems are opened at the times 1 to 9, the tab of \<open>s0\<close> is visited at 10 and the
  welcome tab at 11. The registry is full, and the system tabs were last active at
  11 (\<open>s0\<close>), 3 (\<open>s1\<close>), 4 (\<open>s2\<close>), ..., 10 (\<open>s8\<close>).
\<close>

definition visiting_run :: "(int \<times> tab_event) list" where
  "visiting_run =
     take 9 open_ten @ [(10, ActivateTab (TabId ''s0'' 1)), (11, ActivateTab WelcomeId)]"

definition full_registry :: tab_manager where
  "full_registry = tab_run ten_systems (TabManager True) visiting_run"

text \<open>
  The example of the specification for the eviction order, on the shipped page with the
  limit set to 4: \<open>censor\<close> is opened at 1, \<open>writing\<close> at 5, \<open>case2pg\<close> at 10, and the
  welcome tab is visited at 20. The three system tabs are closable and inactive: T1
  (\<open>writing\<close>) was last active at 10, T2 (\<open>case2pg\<close>) at 20 and T3 (\<open>censor\<close>) at 5.
\<close>

definition spec_example :: tab_manager where
  "spec_example = tab_run PortalConfig ((TabManager True) \<lparr> maxTabs := 4 \<rparr>)
     [(1, OpenTab ''censor'' no_options), (5, OpenTab ''writing'' no_options),
      (10, OpenTab ''case2pg'' no_options), (20, ActivateTab WelcomeId)]"

section \<open>Properties of the health supervision\<close>

subsection \<open>The retry loop\<close>

text \<open>
  The defining equation of \<open>retry_loop\<close> is unfolded by hand, one turn of the loop at a
  time: a successful attempt, the last attempt failing, and a failed attempt that is
  retried.
\<close>

declare retry_loop.simps [simp del]

















subsection \<open>One cycle\<close>

text \<open>
  \<open>check\<close> either returns at one of its guards, or runs the probe from \<open>begin_cycle\<close>,
  handles the outcome of the \<open>try\<close> block and clears \<open>isChecking\<close>.
\<close>

lemma check_skipped:
  "isChecking s \<or> (circuitBreakerOpen s \<and> cooling_down s now) \<Longrightarrow>
   check fl cfg s now probe = ([], Inr s)"
  by (auto simp: check_def)

lemma check_running:
  "\<not> isChecking s \<Longrightarrow> \<not> (circuitBreakerOpen s \<and> cooling_down s now) \<Longrightarrow>
   performHealthCheckWithRetry (begin_cycle s) probe = (evs, res) \<Longrightarrow>
   try_block fl cfg now (begin_cycle s) res = (s2, thrown) \<Longrightarrow>
   check fl cfg s now probe =
     (evs, Inr ((case thrown of None \<Rightarrow> s2 | Some e \<Rightarrow> onCheckFailure fl cfg now e s2)
                 \<lparr> isChecking := False \<rparr>))"
  by (cases "circuitBreakerOpen s"; simp add: check_def begin_cycle_def Let_def)

lemma check_never_throws: "\<exists>s'. snd (check fl cfg s now probe) = Inr s'"
proof (cases "isChecking s \<or> (circuitBreakerOpen s \<and> cooling_down s now)")
  case True
  from check_skipped[OF this] show ?thesis by simp
next
  case False
  obtain evs res where p: "performHealthCheckWithRetry (begin_cycle s) probe = (evs, res)"
    by (cases "performHealthCheckWithRetry (begin_cycle s) probe")
  obtain s2 thrown where t: "try_block fl cfg now (begin_cycle s) res = (s2, thrown)"
    by (cases "try_block fl cfg now (begin_cycle s) res")
  from False check_running[OF _ _ p t] show ?thesis by simp
qed


subsection \<open>The circuit breaker\<close>









subsection \<open>The polling interval\<close>

lemma rounding_mono: "sound_rounding fl \<Longrightarrow> x \<le> y \<Longrightarrow> fl x \<le> fl y"
  by (simp add: sound_rounding_def)

lemma rounding_idem: "sound_rounding fl \<Longrightarrow> fl (fl x) = fl x"
  by (simp add: sound_rounding_def)

lemma rounding_ge_one: "sound_rounding fl \<Longrightarrow> 1 \<le> c \<Longrightarrow> 1 \<le> fl c"
  using rounding_mono[of fl 1 c] by (simp add: sound_rounding_def)

lemma rounding_le_one: "sound_rounding fl \<Longrightarrow> c \<le> 1 \<Longrightarrow> fl c \<le> 1"
  using rounding_mono[of fl c 1] by (simp add: sound_rounding_def)

lemma cap_ge_base:
  assumes "sound_rounding fl" "fl b = b" "0 \<le> b"
  shows "b \<le> fl (b * fl 5)"
proof -
  from rounding_ge_one[of fl 5] assms(1) have "1 \<le> fl 5" by simp
  with assms(3) have "b * 1 \<le> b * fl 5" by (rule mult_left_mono[rotated])
  with rounding_mono[of fl "b * 1" "b * fl 5"] assms(1) have "fl b \<le> fl (b * fl 5)" by simp
  with assms(2) show ?thesis by simp
qed

lemma grow_ge:
  assumes "sound_rounding fl" "fl x = x" "0 \<le> x"
  shows "x \<le> fl (x * fl (3 / 2))"
proof -
  from rounding_ge_one[of fl "3 / 2"] assms(1) have "1 \<le> fl (3 / 2)" by simp
  with assms(3) have "x * 1 \<le> x * fl (3 / 2)" by (rule mult_left_mono[rotated])
  with rounding_mono[of fl "x * 1" "x * fl (3 / 2)"] assms(1)
  have "fl x \<le> fl (x * fl (3 / 2))" by simp
  with assms(2) show ?thesis by simp
qed

lemma shrink_le:
  assumes "sound_rounding fl" "fl x = x" "0 \<le> x"
  shows "fl (x * fl (9 / 10)) \<le> x"
proof -
  from rounding_le_one[of fl "9 / 10"] assms(1) have "fl (9 / 10) \<le> 1" by simp
  with assms(3) have "x * fl (9 / 10) \<le> x * 1" by (rule mult_left_mono[rotated])
  with rounding_mono[of fl "x * fl (9 / 10)" "x * 1"] assms(1)
  have "fl (x * fl (9 / 10)) \<le> fl x" by simp
  with assms(2) show ?thesis by simp
qed

lemma interval_ok_constructor:
  "sound_rounding fl \<Longrightarrow> fl (healthCheckInterval cfg) = healthCheckInterval cfg \<Longrightarrow>
   0 \<le> healthCheckInterval cfg \<Longrightarrow> interval_ok fl cfg (HealthCheckManager cfg)"
  by (simp add: interval_ok_def HealthCheckManager_def cap_ge_base)

lemma interval_ok_onCheckFailure:
  assumes r: "sound_rounding fl" and b: "fl (healthCheckInterval cfg) = healthCheckInterval cfg"
    and p: "0 \<le> healthCheckInterval cfg" and ok: "interval_ok fl cfg s"
  shows "interval_ok fl cfg (onCheckFailure fl cfg now e s)"
proof -
  let ?b = "healthCheckInterval cfg" and ?x = "adaptiveInterval s"
  let ?new = "min (fl (?x * fl (3 / 2))) (fl (?b * fl 5))"
  have new: "adaptiveInterval (onCheckFailure fl cfg now e s) = ?new"
    by (simp add: onCheckFailure_def Let_def)
  from ok have x: "?b \<le> ?x" "fl ?x = ?x" by (simp_all add: interval_ok_def)
  with p have "0 \<le> ?x" by simp
  from grow_ge[OF r x(2) this] x(1) have "?b \<le> fl (?x * fl (3 / 2))" by simp
  moreover from cap_ge_base[OF r b p] have "?b \<le> fl (?b * fl 5)" .
  moreover have "fl ?new = ?new"
    using rounding_idem[OF r] by (simp add: min_def)
  ultimately show ?thesis unfolding interval_ok_def new by simp
qed

lemma interval_ok_onCheckSuccess:
  assumes r: "sound_rounding fl" and b: "fl (healthCheckInterval cfg) = healthCheckInterval cfg"
    and p: "0 \<le> healthCheckInterval cfg" and ok: "interval_ok fl cfg s"
  shows "interval_ok fl cfg (fst (onCheckSuccess fl cfg now d s))"
proof -
  let ?b = "healthCheckInterval cfg" and ?x = "adaptiveInterval s"
  let ?new = "max ?b (fl (?x * fl (9 / 10)))"
  have new: "adaptiveInterval (fst (onCheckSuccess fl cfg now d s)) = ?new"
    by (simp add: onCheckSuccess_def Let_def split: option.splits)
  from ok have x: "?b \<le> ?x" "fl ?x = ?x" "?x \<le> fl (?b * fl 5)"
    by (simp_all add: interval_ok_def)
  with p have "0 \<le> ?x" by simp
  from shrink_le[OF r x(2) this] x(3) have "fl (?x * fl (9 / 10)) \<le> fl (?b * fl 5)" by simp
  moreover from cap_ge_base[OF r b p] have "?b \<le> fl (?b * fl 5)" .
  moreover have "fl ?new = ?new"
    using rounding_idem[OF r] b by (simp add: max_def)
  ultimately show ?thesis unfolding interval_ok_def new by simp
qed

lemma interval_ok_begin_cycle: "interval_ok fl cfg (begin_cycle s) = interval_ok fl cfg s"
  by (simp add: interval_ok_def begin_cycle_def)

lemma interval_ok_isChecking: "interval_ok fl cfg (s\<lparr>isChecking := b\<rparr>) = interval_ok fl cfg s"
  by (simp add: interval_ok_def)

lemma interval_ok_check:
  assumes r: "sound_rounding fl" and b: "fl (healthCheckInterval cfg) = healthCheckInterval cfg"
    and p: "0 \<le> healthCheckInterval cfg" and ok: "interval_ok fl cfg s"
    and c: "snd (check fl cfg s now probe) = Inr s'"
  shows "interval_ok fl cfg s'"
proof (cases "isChecking s \<or> (circuitBreakerOpen s \<and> cooling_down s now)")
  case True
  from check_skipped[OF this] c ok show ?thesis by simp
next
  case False
  obtain evs res where pf: "performHealthCheckWithRetry (begin_cycle s) probe = (evs, res)"
    by (cases "performHealthCheckWithRetry (begin_cycle s) probe")
  obtain s2 thrown where t: "try_block fl cfg now (begin_cycle s) res = (s2, thrown)"
    by (cases "try_block fl cfg now (begin_cycle s) res")
  have ok0: "interval_ok fl cfg (begin_cycle s)" using ok by (simp add: interval_ok_begin_cycle)
  have ok2: "interval_ok fl cfg s2"
  proof (cases res)
    case (Inl e)
    with t ok0 show ?thesis by (simp add: try_block_def)
  next
    case (Inr ro)
    show ?thesis
    proof (cases ro)
      case None
      with Inr t ok0 show ?thesis by (simp add: try_block_def)
    next
      case (Some resp)
      show ?thesis
      proof (cases "body resp")
        case None
        with Some Inr t ok0 show ?thesis by (simp add: try_block_def)
      next
        case (Some d)
        with \<open>ro = Some resp\<close> Inr t
        have "s2 = fst (onCheckSuccess fl cfg now d (begin_cycle s))"
          by (simp add: try_block_def)
        with interval_ok_onCheckSuccess[OF r b p ok0] show ?thesis by simp
      qed
    qed
  qed
  have ok3: "interval_ok fl cfg
      (case thrown of None \<Rightarrow> s2 | Some e \<Rightarrow> onCheckFailure fl cfg now e s2)"
    using ok2 interval_ok_onCheckFailure[OF r b p ok2] by (cases thrown) simp_all
  from False check_running[OF _ _ pf t] c
  have "s' = (case thrown of None \<Rightarrow> s2 | Some e \<Rightarrow> onCheckFailure fl cfg now e s2)
               \<lparr>isChecking := False\<rparr>"
    by simp
  with ok3 show ?thesis by (simp only: interval_ok_isChecking)
qed

lemma interval_ok_run:
  assumes r: "sound_rounding fl" and b: "fl (healthCheckInterval cfg) = healthCheckInterval cfg"
    and p: "0 \<le> healthCheckInterval cfg"
  shows "interval_ok fl cfg s \<Longrightarrow> \<exists>s'. run_checks fl cfg s cs = Inr s' \<and> interval_ok fl cfg s'"
proof (induction cs arbitrary: s)
  case Nil
  then show ?case by simp
next
  case (Cons c cs)
  obtain now probe where c: "c = (now, probe)" by (cases c)
  from check_never_throws[of fl cfg s now probe]
  obtain s1 where s1: "snd (check fl cfg s now probe) = Inr s1" by auto
  from interval_ok_check[OF r b p Cons.prems s1] have "interval_ok fl cfg s1" .
  from Cons.IH[OF this] c s1 show ?case by simp
qed

text \<open>
  Claim C6. For a non-negative, representable base interval and every sequence of cycles
  from the constructor's state, whatever their outcomes, the run ends normally and
  \<open>adaptiveInterval\<close> lies between \<open>healthCheckInterval\<close> and the program's product
  \<open>healthCheckInterval * 5\<close>; a success sets it to the larger of the base and 0.9 times
  its value, a failure to the smaller of 1.5 times its value and the cap.
\<close>

theorem adaptive_interval_bounds:
  assumes "sound_rounding fl"
    and "fl (healthCheckInterval cfg) = healthCheckInterval cfg"
    and "0 \<le> healthCheckInterval cfg"
  shows "(\<exists>s'. run_checks fl cfg (HealthCheckManager cfg) cs = Inr s' \<and>
             healthCheckInterval cfg \<le> adaptiveInterval s' \<and>
             adaptiveInterval s' \<le> fl (healthCheckInterval cfg * fl 5)) \<and>
         adaptiveInterval (fst (onCheckSuccess fl cfg now d s)) =
           max (healthCheckInterval cfg) (fl (adaptiveInterval s * fl (9 / 10))) \<and>
         adaptiveInterval (onCheckFailure fl cfg now e s) =
           min (fl (adaptiveInterval s * fl (3 / 2))) (fl (healthCheckInterval cfg * fl 5))"
proof (intro conjI)
  from interval_ok_run[OF assms interval_ok_constructor[OF assms], of cs]
  show "\<exists>s'. run_checks fl cfg (HealthCheckManager cfg) cs = Inr s' \<and>
             healthCheckInterval cfg \<le> adaptiveInterval s' \<and>
             adaptiveInterval s' \<le> fl (healthCheckInterval cfg * fl 5)"
    by (auto simp: interval_ok_def)
next
  show "adaptiveInterval (fst (onCheckSuccess fl cfg now d s)) =
           max (healthCheckInterval cfg) (fl (adaptiveInterval s * fl (9 / 10)))"
    by (simp add: onCheckSuccess_def Let_def split: option.splits)
next
  show "adaptiveInterval (onCheckFailure fl cfg now e s) =
           min (fl (adaptiveInterval s * fl (3 / 2))) (fl (healthCheckInterval cfg * fl 5))"
    by (cases "maxConsecutiveFailures s \<le> consecutiveFailures s + 1")
       (simp_all add: onCheckFailure_def Let_def)
qed

text \<open>Four failed cycles and a success at the shipped base of 60000 ms, in exact arithmetic.\<close>

theorem adaptive_interval_bounds_witness:
  "sound_rounding (\<lambda>x. x) \<and> healthCheckInterval PortalConfig = 60000 \<and>
   (\<exists>s'. run_checks (\<lambda>x. x) PortalConfig (HealthCheckManager PortalConfig)
          [(1000, \<lambda>k. Threw), (2000, \<lambda>k. Threw), (3000, \<lambda>k. Threw), (4000, \<lambda>k. Threw),
           (5000, \<lambda>k. Returned good_response)] = Inr s' \<and>
        60000 \<le> adaptiveInterval s' \<and> adaptiveInterval s' \<le> 300000)"
proof -
  have r: "sound_rounding (\<lambda>x. x)" by (simp add: sound_rounding_def)
  have b: "healthCheckInterval PortalConfig = healthCheckInterval PortalConfig" by simp
  have p: "0 \<le> healthCheckInterval PortalConfig" by (simp add: PortalConfig_def)
  have v: "healthCheckInterval PortalConfig = 60000" by (simp add: PortalConfig_def)
  from adaptive_interval_bounds[of "\<lambda>x. x" PortalConfig
      "[(1000, \<lambda>k. Threw), (2000, \<lambda>k. Threw), (3000, \<lambda>k. Threw), (4000, \<lambda>k. Threw),
        (5000, \<lambda>k. Returned good_response)]", OF r b p] r v
  show ?thesis by simp
qed

subsection \<open>Attempts and waits of a cycle\<close>





lemma begin_cycle_retry [simp]:
  "maxRetries (begin_cycle s) = maxRetries s" "retryDelay (begin_cycle s) = retryDelay s"
  by (simp_all add: begin_cycle_def)











section \<open>Properties of the service control\<close>

lemma commands_updateServiceStatus [simp]:
  "commands (updateServiceStatus n st s) = commands s"
  by (simp add: updateServiceStatus_def split: option.splits)

lemma serviceStatus_updateServiceStatus:
  "serviceStatus s n \<noteq> None \<Longrightarrow> serviceStatus (updateServiceStatus n st s) n = Some st"
  by (auto simp: updateServiceStatus_def split: option.splits)

lemma serviceStatus_domain_updateServiceStatus:
  "serviceStatus (updateServiceStatus n st s) m = None \<longleftrightarrow> serviceStatus s m = None"
  by (auto simp: updateServiceStatus_def split: option.splits)

lemma commands_startService_call:
  "commands (startService_call n s) = commands s @ [StartCommand n]"
  by (simp add: startService_call_def Let_def)

lemma commands_startService_resume:
  "commands (snd (startService_resume n out s)) = commands s"
  by (cases out) (simp_all add: startService_resume_def Let_def split: bool.splits)

lemma commands_startService:
  "commands (snd (startService n out s)) = commands s @ [StartCommand n]"
  by (simp add: startService_def commands_startService_resume commands_startService_call)

lemma serviceStatus_startService_call:
  "serviceStatus s n \<noteq> None \<Longrightarrow> serviceStatus (startService_call n s) n = Some Starting"
  by (simp add: startService_call_def Let_def serviceStatus_updateServiceStatus)

lemma serviceStatus_startService_resume:
  "serviceStatus s n \<noteq> None \<Longrightarrow>
   serviceStatus (snd (startService_resume n out s)) n =
     Some (if out = FetchReturned True then Running else Stopped)"
proof -
  assume card: "serviceStatus s n \<noteq> None"
  then have upd: "\<And>st. serviceStatus (updateServiceStatus n st s) n = Some st"
    by (rule serviceStatus_updateServiceStatus)
  show ?thesis
  proof (cases out)
    case FetchThrew
    then show ?thesis using upd[of Stopped] by (simp add: startService_resume_def)
  next
    case (FetchReturned b)
    then show ?thesis using upd[of Stopped] upd[of Running]
      by (cases b) (auto simp: startService_resume_def Let_def)
  qed
qed

text \<open>
  Claim C2 as stated: a start of a service that is Running issues no command, and two such
  starts issue at most one. With the card of \<open>censor\<close> showing Running, one call sends the
  POST request and two calls send two.
\<close>

theorem idempotent_start_counterexample:
  "serviceStatus running_censor ''censor'' = Some Running \<and>
   commands (snd (startService ''censor'' (FetchReturned True) running_censor)) =
     [StartCommand ''censor''] \<and>
   \<not> start_commands ''censor''
       (snd (startService ''censor'' (FetchReturned True)
          (snd (startService ''censor'' (FetchReturned True) running_censor)))) \<le> 1"
  by (simp add: running_censor_def startService_def startService_call_def
      startService_resume_def updateServiceStatus_def start_commands_def Let_def)

text \<open>
  Claim C2, amended. \<open>startService\<close> does not look at the status: every call, as soon as
  it is made, shows a service that has a card as Starting and issues exactly one start
  command, so two calls issue two, whether the second is made after the first has settled
  or while its request is in flight. The call returns true exactly when the command
  reports success, and a service that has a card is then shown as Running, otherwise as
  Stopped.
\<close>

theorem startService_issues_command:
  "commands (startService_call n s) = commands s @ [StartCommand n] \<and>
   (serviceStatus s n \<noteq> None \<longrightarrow> serviceStatus (startService_call n s) n = Some Starting) \<and>
   start_commands n (startService_call n (startService_call n s)) = start_commands n s + 2 \<and>
   commands (snd (startService n out s)) = commands s @ [StartCommand n] \<and>
   start_commands n (snd (startService n out' (snd (startService n out s)))) =
     start_commands n s + 2 \<and>
   (fst (startService n out s) \<longleftrightarrow> out = FetchReturned True) \<and>
   (serviceStatus s n \<noteq> None \<longrightarrow>
      serviceStatus (snd (startService n out s)) n =
        Some (if out = FetchReturned True then Running else Stopped))"
proof (intro conjI impI)
  show "commands (startService_call n s) = commands s @ [StartCommand n]"
    by (rule commands_startService_call)
  show "start_commands n (startService_call n (startService_call n s)) = start_commands n s + 2"
    by (simp add: start_commands_def commands_startService_call)
  show "commands (snd (startService n out s)) = commands s @ [StartCommand n]"
    by (rule commands_startService)
  show "start_commands n (snd (startService n out' (snd (startService n out s)))) =
     start_commands n s + 2"
    by (simp add: start_commands_def commands_startService)
  show "fst (startService n out s) \<longleftrightarrow> out = FetchReturned True"
    by (cases out) (simp_all add: startService_def startService_resume_def Let_def split: bool.splits)
next
  assume card: "serviceStatus s n \<noteq> None"
  then show "serviceStatus (startService_call n s) n = Some Starting"
    by (rule serviceStatus_startService_call)
next
  assume card: "serviceStatus s n \<noteq> None"
  then have "serviceStatus (startService_call n s) n \<noteq> None"
    by (simp add: serviceStatus_startService_call)
  then show "serviceStatus (snd (startService n out s)) n =
        Some (if out = FetchReturned True then Running else Stopped)"
    unfolding startService_def by (rule serviceStatus_startService_resume)
qed

text \<open>
  A start of \<open>censor\<close>, shown as Running: while the request is in flight the card shows
  Starting; the request fails, and the card shows Stopped.
\<close>

theorem startService_issues_command_witness:
  "serviceStatus running_censor ''censor'' \<noteq> None \<and>
   serviceStatus (startService_call ''censor'' running_censor) ''censor'' = Some Starting \<and>
   commands (startService_call ''censor'' running_censor) = [StartCommand ''censor''] \<and>
   serviceStatus (snd (startService ''censor'' FetchThrew running_censor)) ''censor'' =
     Some Stopped \<and>
   commands (snd (startService ''censor'' FetchThrew running_censor)) =
     [StartCommand ''censor''] \<and>
   \<not> fst (startService ''censor'' FetchThrew running_censor)"
proof -
  have c: "serviceStatus running_censor ''censor'' \<noteq> None" "commands running_censor = []"
    by (simp_all add: running_censor_def)
  from startService_issues_command[of "''censor''" running_censor FetchThrew] c
  show ?thesis by simp
qed

section \<open>Properties of the tab registry\<close>

subsection \<open>The skeleton of the registry\<close>

lemma skeleton_keys: "map fst (skeleton ts) = map fst ts"
  by (induction ts) (auto simp: skeleton_def)

lemma skeleton_Nil [simp]: "skeleton [] = []"
  by (simp add: skeleton_def)

lemma skeleton_modify_tab:
  "(\<And>t. tab_id (f t) = tab_id t \<and> system (f t) = system t) \<Longrightarrow>
   skeleton (modify_tab k f ts) = skeleton ts"
  by (induction ts) (auto simp: skeleton_def modify_tab_def)

lemma skeleton_deactivate:
  "skeleton (map (\<lambda>(k, u). if isActive u
                             then (k, u\<lparr> isActive := False, lastActiveTime := Some now \<rparr>)
                             else (k, u)) ts) = skeleton ts"
  by (induction ts) (auto simp: skeleton_def)

lemma skeleton_delete:
  "skeleton (AList.delete k ts) = filter (\<lambda>p. fst p \<noteq> k) (skeleton ts)"
  by (induction ts) (auto simp: skeleton_def)

lemma length_filter_filter_le: "length (filter P (filter Q xs)) \<le> length (filter P xs)"
  by (induction xs) auto

lemma skeleton_ok_filter:
  assumes "skeleton_ok sk"
  shows "skeleton_ok (filter Q sk)"
proof -
  have "length (filter (\<lambda>p. snd (snd p) = Some name) (filter Q sk)) \<le> 1" for name
  proof -
    have "length (filter (\<lambda>p. snd (snd p) = Some name) (filter Q sk))
          \<le> length (filter (\<lambda>p. snd (snd p) = Some name) sk)"
      by (rule length_filter_filter_le)
    also have "\<dots> \<le> 1" using assms by (simp add: skeleton_ok_def)
    finally show ?thesis .
  qed
  moreover have "distinct (map fst (filter Q sk))"
    using assms by (simp add: skeleton_ok_def distinct_map_filter)
  moreover have "\<forall>p \<in> set (filter Q sk). fst (snd p) = fst p"
    using assms by (simp add: skeleton_ok_def)
  ultimately show ?thesis unfolding skeleton_ok_def by blast
qed

lemma skeleton_loadTabContent [simp]:
  "skeleton (tabs (loadTabContent now k s)) = skeleton (tabs s)"
  by (simp add: loadTabContent_def skeleton_modify_tab split: option.splits)

lemma skeleton_activateTab [simp]:
  "skeleton (tabs (activateTab now k s)) = skeleton (tabs s)"
  by (simp add: activateTab_def Let_def skeleton_modify_tab skeleton_deactivate
      split: option.splits)

lemma skeleton_activateNextTab [simp]:
  "skeleton (tabs (activateNextTab now s)) = skeleton (tabs s)"
  by (simp add: activateNextTab_def split: option.splits prod.splits)

lemma skeleton_finishClose:
  "skeleton (tabs (finishClose now k s)) = filter (\<lambda>p. fst p \<noteq> k) (skeleton (tabs s))"
  by (simp add: finishClose_def Let_def skeleton_delete)

lemma skeleton_closeTab:
  "\<exists>Q. skeleton (tabs (closeTab now k c s)) = filter Q (skeleton (tabs s))"
proof (cases "closeTab now k c s = finishClose now k s")
  case True
  then show ?thesis by (auto simp: skeleton_finishClose)
next
  case False
  then have "tabs (closeTab now k c s) = tabs s"
    by (auto simp: closeTab_def split: option.splits if_splits)
  then show ?thesis by (intro exI[of _ "\<lambda>_. True"]) simp
qed

lemma skeleton_answerCloseDialog:
  "\<exists>Q. skeleton (tabs (answerCloseDialog now k a s)) = filter Q (skeleton (tabs s))"
proof (cases "k \<in> set (closeDialogs s) \<and> a \<noteq> None")
  case True
  then show ?thesis
    by (auto simp: answerCloseDialog_def Let_def skeleton_finishClose)
next
  case False
  then have "tabs (answerCloseDialog now k a s) = tabs s"
    by (auto simp: answerCloseDialog_def Let_def)
  then show ?thesis by (intro exI[of _ "\<lambda>_. True"]) simp
qed

lemma skeleton_closeOldestInactiveTab:
  "\<exists>Q. skeleton (tabs (closeOldestInactiveTab now s)) = filter Q (skeleton (tabs s))"
proof (cases "oldestInactiveTab now s")
  case None
  then have "closeOldestInactiveTab now s = s" by (simp add: closeOldestInactiveTab_def)
  then show ?thesis by (intro exI[of _ "\<lambda>_. True"]) simp
next
  case (Some t)
  then show ?thesis using skeleton_closeTab[of now "tab_id t" True s]
    by (simp add: closeOldestInactiveTab_def)
qed

lemma skeleton_scheduleTabLoad [simp]:
  "skeleton (tabs (scheduleTabLoad k s)) = skeleton (tabs s)"
  by (simp add: scheduleTabLoad_def)

lemma skeleton_idleCallback [simp]:
  "skeleton (tabs (idleCallback now k s)) = skeleton (tabs s)"
  by (simp add: idleCallback_def Let_def)

lemma skeleton_onIframeLoad [simp]:
  "skeleton (tabs (onIframeLoad now k s)) = skeleton (tabs s)"
proof -
  have "skeleton (modify_tab k
          (\<lambda>t. (case loadStartTime t of
                   None \<Rightarrow> t
                 | Some t0 \<Rightarrow> if t0 = 0 then t
                              else t\<lparr> loadTime := Some (now - t0), loadStartTime := None \<rparr>)
                \<lparr> status := Some Loaded \<rparr>) (tabs s)) = skeleton (tabs s)"
    by (rule skeleton_modify_tab) (simp split: option.splits)
  then show ?thesis
    by (simp add: onIframeLoad_def Let_def split: list.splits)
qed

lemma skeleton_onIframeError [simp]:
  "skeleton (tabs (onIframeError k s)) = skeleton (tabs s)"
  by (simp add: onIframeError_def skeleton_modify_tab)

lemma skeleton_unloadInactiveTab [simp]:
  "skeleton (tabs (unloadInactiveTab k b s)) = skeleton (tabs s)"
  by (simp add: unloadInactiveTab_def skeleton_modify_tab split: option.splits)

subsection \<open>The registry invariant\<close>

lemma skeleton_update:
  "skeleton (AList.update k v ts) = AList.update k (tab_id v, system v) (skeleton ts)"
  by (induction ts) (auto simp: skeleton_def)

lemma length_filter_update_le:
  "length (filter P (AList.update k v ts)) \<le> length (filter P ts) + (if P (k, v) then 1 else 0)"
  by (induction ts) auto

lemma set_update_subset: "set (AList.update k v ts) \<subseteq> insert (k, v) (set ts)"
  by (induction ts) auto

lemma skeleton_ok_update:
  assumes ok: "skeleton_ok sk" and fresh: "filter (\<lambda>p. snd (snd p) = Some name) sk = []"
  shows "skeleton_ok (AList.update k (k, Some name) sk)"
proof -
  have "length (filter (\<lambda>p. snd (snd p) = Some name') (AList.update k (k, Some name) sk)) \<le> 1"
    for name'
  proof (cases "name' = name")
    case True
    from length_filter_update_le[of "\<lambda>p. snd (snd p) = Some name" k "(k, Some name)" sk] fresh
    show ?thesis using True by simp
  next
    case False
    from length_filter_update_le[of "\<lambda>p. snd (snd p) = Some name'" k "(k, Some name)" sk] False
    have "length (filter (\<lambda>p. snd (snd p) = Some name') (AList.update k (k, Some name) sk))
          \<le> length (filter (\<lambda>p. snd (snd p) = Some name') sk)" by simp
    also have "\<dots> \<le> 1" using ok by (simp add: skeleton_ok_def)
    finally show ?thesis .
  qed
  moreover have "distinct (map fst (AList.update k (k, Some name) sk))"
    using ok by (simp add: skeleton_ok_def distinct_update)
  moreover have "\<forall>p \<in> set (AList.update k (k, Some name) sk). fst (snd p) = fst p"
  proof
    fix p assume "p \<in> set (AList.update k (k, Some name) sk)"
    then have "p = (k, k, Some name) \<or> p \<in> set sk"
      using set_update_subset[of k "(k, Some name)" sk] by auto
    then show "fst (snd p) = fst p" using ok by (auto simp: skeleton_ok_def)
  qed
  ultimately show ?thesis unfolding skeleton_ok_def by blast
qed

lemma findTabBySystem_None:
  "findTabBySystem s name = None \<longleftrightarrow>
   filter (\<lambda>p. snd (snd p) = Some name) (skeleton (tabs s)) = []"
  by (auto simp: findTabBySystem_def find_None_iff filter_empty_conv skeleton_def)

lemma registry_ok_shrink:
  "registry_ok s \<Longrightarrow> skeleton (tabs s') = filter Q (skeleton (tabs s)) \<Longrightarrow> registry_ok s'"
  by (simp add: registry_ok_def skeleton_ok_filter)

lemma registry_ok_same:
  "registry_ok s \<Longrightarrow> skeleton (tabs s') = skeleton (tabs s) \<Longrightarrow> registry_ok s'"
  by (simp add: registry_ok_def)

lemma registry_ok_TabManager: "registry_ok (TabManager b)"
  by (simp add: registry_ok_def skeleton_ok_def skeleton_def TabManager_def createWelcomeTab_def
      welcomeTab_def Let_def)

lemma registry_ok_openTab:
  assumes ok: "registry_ok s"
  shows "registry_ok (openTab cfg now name opts s)"
proof (cases "systems_property cfg name")
  case None
  with ok show ?thesis by (simp add: openTab_def)
next
  case (Some sc)
  show ?thesis
  proof (cases "findTabBySystem s name")
    case (Some t)
    with \<open>systems_property cfg name = Some sc\<close> ok show ?thesis
      by (auto simp: openTab_def intro: registry_ok_same)
  next
    case None
    define s1 where "s1 = (if length (tabs s) \<ge> maxTabs s then closeOldestInactiveTab now s else s)"
    define k where "k = TabId name (tabCounter s1 + 1)"
    obtain Q where Q: "skeleton (tabs s1) = filter Q (skeleton (tabs s))"
    proof (cases "length (tabs s) \<ge> maxTabs s")
      case True
      with skeleton_closeOldestInactiveTab[of now s] that show ?thesis
        by (auto simp: s1_def)
    next
      case False
      with that[of "\<lambda>_. True"] show ?thesis by (simp add: s1_def)
    qed
    have ok1: "skeleton_ok (skeleton (tabs s1))"
      using ok Q by (simp add: registry_ok_def skeleton_ok_filter)
    from None have "filter (\<lambda>p. snd (snd p) = Some name) (skeleton (tabs s)) = []"
      by (simp add: findTabBySystem_None)
    then have fresh: "filter (\<lambda>p. snd (snd p) = Some name) (skeleton (tabs s1)) = []"
      unfolding Q by (auto simp: filter_empty_conv)
    have "skeleton (tabs (openTab cfg now name opts s)) =
          skeleton (AList.update k (new_tab now name sc opts k) (tabs s1))"
      using None \<open>systems_property cfg name = Some sc\<close>
      unfolding k_def s1_def by (simp add: openTab_def Let_def)
    also have "\<dots> = AList.update k (k, Some name) (skeleton (tabs s1))"
      by (simp add: skeleton_update new_tab_def)
    finally show ?thesis
      using skeleton_ok_update[OF ok1 fresh, of k] by (simp add: registry_ok_def)
  qed
qed

lemma registry_ok_step: "registry_ok s \<Longrightarrow> registry_ok (tab_step cfg s e)"
proof -
  assume ok: "registry_ok s"
  obtain now ev where e: "e = (now, ev)" by (cases e)
  show ?thesis
  proof (cases ev)
    case (OpenTab name opts)
    with e ok show ?thesis by (simp add: registry_ok_openTab)
  next
    case (ActivateTab k)
    with e ok show ?thesis by (auto intro: registry_ok_same)
  next
    case (CloseTab k c)
    with e ok skeleton_closeTab[of now k c s] show ?thesis by (auto intro: registry_ok_shrink)
  next
    case (AnswerCloseDialog k a)
    with e ok skeleton_answerCloseDialog[of now k a s] show ?thesis
      by (auto intro: registry_ok_shrink)
  next
    case (IdleCallback k)
    with e ok show ?thesis by (auto intro: registry_ok_same)
  next
    case (IframeLoad k)
    with e ok show ?thesis by (auto intro: registry_ok_same)
  next
    case (IframeError k)
    with e ok show ?thesis by (auto intro: registry_ok_same)
  next
    case (UnloadTimer k b)
    with e ok show ?thesis by (auto intro: registry_ok_same)
  next
    case Destroy
    with e show ?thesis by (simp add: destroy_def registry_ok_def skeleton_ok_def)
  qed
qed

lemma registry_ok_run: "registry_ok s \<Longrightarrow> registry_ok (tab_run cfg s evs)"
  unfolding tab_run_def by (induction evs arbitrary: s) (simp_all add: registry_ok_step)

lemma registry_ok_unique:
  "registry_ok s \<Longrightarrow> length (tabs_of_system s name) \<le> 1"
proof -
  assume "registry_ok s"
  then have "length (filter (\<lambda>p. snd (snd p) = Some name) (skeleton (tabs s))) \<le> 1"
    by (simp add: registry_ok_def skeleton_ok_def)
  moreover have "length (filter (\<lambda>p. snd (snd p) = Some name) (skeleton (tabs s)))
      = length (tabs_of_system s name)"
    unfolding skeleton_def tabs_of_system_def filter_map length_map
    by (rule arg_cong[where f = length], rule filter_cong) auto
  ultimately show ?thesis by simp
qed

lemma registry_ok_key:
  "registry_ok s \<Longrightarrow> (k, t) \<in> set (tabs s) \<Longrightarrow> tab_id t = k \<and> map_of (tabs s) k = Some t"
proof -
  assume ok: "registry_ok s" and m: "(k, t) \<in> set (tabs s)"
  from m have "(k, tab_id t, system t) \<in> set (skeleton (tabs s))"
    by (force simp: skeleton_def)
  with ok have "tab_id t = k" by (auto simp: registry_ok_def skeleton_ok_def)
  moreover from ok have "distinct (map fst (tabs s))"
    by (simp add: registry_ok_def skeleton_ok_def skeleton_keys[symmetric])
  with m have "map_of (tabs s) k = Some t" by simp
  ultimately show ?thesis by simp
qed

subsection \<open>Reading the registry after an operation\<close>

lemma map_of_modify_tab:
  "map_of (modify_tab k f ts) k' = (if k' = k then map_option f (map_of ts k) else map_of ts k')"
  by (induction ts) (auto simp: modify_tab_def)

lemma deactivate_map:
  "map (\<lambda>(k, u). if isActive u
                  then (k, u\<lparr> isActive := False, lastActiveTime := Some now \<rparr>)
                  else (k, u)) ts = map (\<lambda>(k, u). (k, deactivate now u)) ts"
  by (induction ts) (auto simp: deactivate_def)

lemma map_of_deactivate:
  "map_of (map (\<lambda>(k, u). (k, deactivate now u)) ts) k = map_option (deactivate now) (map_of ts k)"
  by (induction ts) auto

lemma loadTabContent_fields [simp]:
  "activeTab (loadTabContent now k s) = activeTab s"
  "closeDialogs (loadTabContent now k s) = closeDialogs s"
  "tabCounter (loadTabContent now k s) = tabCounter s"
  "maxTabs (loadTabContent now k s) = maxTabs s"
  "idleCallbacks (loadTabContent now k s) = idleCallbacks s"
  by (simp_all add: loadTabContent_def split: option.splits)

lemma map_of_loadTabContent:
  "map_of (tabs (loadTabContent now k s)) k' =
     (if k' = k then
        map_option (\<lambda>t. if tab_type t \<noteq> System \<or> isLoaded t then t
                         else t\<lparr> status := Some Loading, loadStartTime := Some now,
                                 isLoaded := True \<rparr>) (map_of (tabs s) k)
      else map_of (tabs s) k')"
  by (auto simp: loadTabContent_def map_of_modify_tab split: option.splits)

lemma activateTab_missing: "map_of (tabs s) k = None \<Longrightarrow> activateTab now k s = s"
  by (simp add: activateTab_def)

lemma activateTab_fields [simp]:
  "closeDialogs (activateTab now k s) = closeDialogs s"
  "tabCounter (activateTab now k s) = tabCounter s"
  "maxTabs (activateTab now k s) = maxTabs s"
  "idleCallbacks (activateTab now k s) = idleCallbacks s"
  by (simp_all add: activateTab_def Let_def split: option.splits)

lemma activeTab_activateTab:
  "map_of (tabs s) k = Some t \<Longrightarrow> activeTab (activateTab now k s) = Some k"
  by (simp add: activateTab_def Let_def)

lemma map_of_activateTab_same:
  assumes "map_of (tabs s) k = Some t"
  shows "map_of (tabs (activateTab now k s)) k =
     Some (let u = (deactivate now t)\<lparr> isActive := True, lastActiveTime := Some now \<rparr>
           in if tab_type t \<noteq> System \<or> isLoaded t then u
              else u\<lparr> status := Some Loading, loadStartTime := Some now, isLoaded := True \<rparr>)"
proof -
  let ?tabs2 = "modify_tab k (\<lambda>u. u\<lparr> isActive := True, lastActiveTime := Some now \<rparr>)
      (map (\<lambda>(k, u). (k, deactivate now u)) (tabs s))"
  have m: "map_of ?tabs2 k = Some ((deactivate now t)\<lparr> isActive := True, lastActiveTime := Some now \<rparr>)"
    using assms by (simp add: map_of_modify_tab map_of_deactivate)
  have d: "isLoaded (deactivate now t) = isLoaded t" "tab_type (deactivate now t) = tab_type t"
    by (simp_all add: deactivate_def)
  show ?thesis
  proof (cases "\<not> isLoaded t \<and> tab_type t = System")
    case True
    with assms m d show ?thesis
      by (simp add: activateTab_def Let_def deactivate_map map_of_loadTabContent)
  next
    case False
    with assms m show ?thesis
      by (auto simp: activateTab_def Let_def deactivate_map)
  qed
qed

lemma isActive_activateTab:
  "map_of (tabs s) k = Some t \<Longrightarrow>
   \<exists>t'. map_of (tabs (activateTab now k s)) k = Some t' \<and> isActive t'"
  by (simp add: map_of_activateTab_same Let_def)

lemma keys_activateTab [simp]: "map fst (tabs (activateTab now k s)) = map fst (tabs s)"
  using skeleton_activateTab[of now k s] skeleton_keys by metis

subsection \<open>Unknown systems\<close>

lemma systems_property_own:
  "systemName \<notin> set object_prototype_names \<Longrightarrow>
   systems_property cfg systemName = map_of (systems cfg) systemName"
  by (simp add: systems_property_def split: option.splits)

text \<open>
  A \<open>systemName\<close> for which \<open>PortalConfig.systems[systemName]\<close> is \<open>undefined\<close> makes
  \<open>openTab\<close> return at its first guard: no tab is created, and the registry, the active tab
  and every other field stay as they were. Hence such a call can be taken out of any run
  without changing where the run ends. (No method of the registry has a \<open>throw\<close>; the
  functions of the model are total accordingly.)
\<close>

lemma openTab_undefined_system:
  assumes "systems_property cfg systemName = None"
  shows "openTab cfg now systemName options s = s \<and>
         tab_run cfg s (evs @ [(now, OpenTab systemName options)] @ evs') = tab_run cfg s (evs @ evs')"
proof -
  have same: "openTab cfg now systemName options s' = s'" for s'
    using assms by (simp add: openTab_def)
  have "tab_run cfg s (evs @ [(now, OpenTab systemName options)] @ evs') = tab_run cfg s (evs @ evs')"
    by (simp add: tab_run_def same)
  with same show ?thesis by simp
qed

text \<open>
  \<open>meeting_minutes\<close> is in the service list of \<open>ServiceManager\<close>, has no entry in
  \<open>PortalConfig.systems\<close> and is not inherited either.
\<close>

lemma openTab_meeting_minutes:
  "openTab PortalConfig 1000 ''meeting_minutes'' no_options (TabManager True) = TabManager True"
proof -
  have "systems_property PortalConfig ''meeting_minutes'' = None" by code_simp
  from openTab_undefined_system[OF this] show ?thesis by simp
qed

text \<open>
  Claim C10 says that \<open>openTab\<close> for a \<open>systemKey\<close> that is not in the configured systems
  creates no tab and leaves the registry and the active tab unchanged. The guard of
  \<open>openTab\<close> tests \<open>PortalConfig.systems[systemName]\<close>, and that is not \<open>undefined\<close> for a name
  the object inherits: \<open>constructor\<close> is none of the four configured systems, and on the
  shipped page \<open>openTab('constructor')\<close> creates the tab \<open>tab-constructor-1\<close>, which has no
  url, makes it the active tab and the current system, and starts loading it.
\<close>

theorem openTab_inherited_name:
  "map_of (systems PortalConfig) ''constructor'' = None \<and>
   map fst (systems PortalConfig) = [''writing'', ''qa_sys'', ''case2pg'', ''censor''] \<and>
   map fst (tabs (TabManager True)) = [WelcomeId] \<and>
   activeTab (TabManager True) = Some WelcomeId \<and>
   map fst (tabs (openTab PortalConfig 1000 ''constructor'' no_options (TabManager True)))
     = [WelcomeId, TabId ''constructor'' 1] \<and>
   activeTab (openTab PortalConfig 1000 ''constructor'' no_options (TabManager True))
     = Some (TabId ''constructor'' 1) \<and>
   map_option (\<lambda>t. (system t, tab_url t, isActive t, status t))
     (map_of (tabs (openTab PortalConfig 1000 ''constructor'' no_options (TabManager True)))
        (TabId ''constructor'' 1))
     = Some (Some ''constructor'', None, True, Some Loading) \<and>
   currentSystem (openTab PortalConfig 1000 ''constructor'' no_options (TabManager True))
     = Some ''constructor''"
  by code_simp

subsection \<open>One tab per system\<close>

text \<open>
  Claim C4. In every state the registry reaches from the constructor, by any sequence of
  calls and callbacks, at most one tab has a given \<open>systemName\<close>; and there \<open>openTab\<close> for a
  \<open>systemName\<close> that passes its guard (a configured system, or a name that
  \<open>PortalConfig.systems\<close> inherits) and has a tab is \<open>activateTab\<close> of that tab: the keys of
  the registry are the same afterwards and that tab is the active one.
\<close>

theorem unique_tab_per_system:
  "length (tabs_of_system (tab_run cfg (TabManager has_tabList) evs) systemName) \<le> 1 \<and>
   (systems_property cfg systemName \<noteq> None \<and>
    findTabBySystem (tab_run cfg (TabManager has_tabList) evs) systemName = Some t
    \<longrightarrow> openTab cfg now systemName options (tab_run cfg (TabManager has_tabList) evs) =
          activateTab now (tab_id t) (tab_run cfg (TabManager has_tabList) evs) \<and>
        map fst (tabs (openTab cfg now systemName options (tab_run cfg (TabManager has_tabList) evs)))
          = map fst (tabs (tab_run cfg (TabManager has_tabList) evs)) \<and>
        activeTab (openTab cfg now systemName options (tab_run cfg (TabManager has_tabList) evs))
          = Some (tab_id t))"
proof -
  let ?s = "tab_run cfg (TabManager has_tabList) evs"
  have ok: "registry_ok ?s" by (rule registry_ok_run[OF registry_ok_TabManager])
  have one: "length (tabs_of_system ?s systemName) \<le> 1" by (rule registry_ok_unique[OF ok])
  have two: "openTab cfg now systemName options ?s = activateTab now (tab_id t) ?s \<and>
        map fst (tabs (openTab cfg now systemName options ?s)) = map fst (tabs ?s) \<and>
        activeTab (openTab cfg now systemName options ?s) = Some (tab_id t)"
    if c: "systems_property cfg systemName \<noteq> None" and f: "findTabBySystem ?s systemName = Some t"
  proof -
    from c f have eq: "openTab cfg now systemName options ?s = activateTab now (tab_id t) ?s"
      by (auto simp: openTab_def)
    from f have "t \<in> snd ` set (tabs ?s)"
      by (auto simp: findTabBySystem_def find_Some_iff)
    then obtain k where "(k, t) \<in> set (tabs ?s)" by auto
    from registry_ok_key[OF ok this] have "map_of (tabs ?s) (tab_id t) = Some t" by simp
    from activeTab_activateTab[OF this] eq show ?thesis by simp
  qed
  from one two show ?thesis by blast
qed

text \<open>
  On the shipped page \<open>writing\<close> is opened, the welcome tab is visited, and \<open>writing\<close> is
  opened again.
\<close>

theorem unique_tab_per_system_witness:
  "systems_property PortalConfig ''writing'' \<noteq> None \<and>
   tabs_of_system (tab_run PortalConfig (TabManager True)
       [(1000, OpenTab ''writing'' no_options), (2000, ActivateTab WelcomeId)]) ''writing'' \<noteq> [] \<and>
   length (tabs_of_system (tab_run PortalConfig (TabManager True)
       [(1000, OpenTab ''writing'' no_options), (2000, ActivateTab WelcomeId)]) ''writing'') \<le> 1 \<and>
   map fst (tabs (openTab PortalConfig 3000 ''writing'' no_options
       (tab_run PortalConfig (TabManager True)
          [(1000, OpenTab ''writing'' no_options), (2000, ActivateTab WelcomeId)])))
     = [WelcomeId, TabId ''writing'' 1] \<and>
   activeTab (openTab PortalConfig 3000 ''writing'' no_options
       (tab_run PortalConfig (TabManager True)
          [(1000, OpenTab ''writing'' no_options), (2000, ActivateTab WelcomeId)]))
     = Some (TabId ''writing'' 1)"
proof -
  let ?evs = "[(1000, OpenTab ''writing'' no_options), (2000, ActivateTab WelcomeId)]"
  let ?s = "tab_run PortalConfig (TabManager True) ?evs"
  let ?t = "the (findTabBySystem ?s ''writing'')"
  have c: "systems_property PortalConfig ''writing'' \<noteq> None" by code_simp
  have keys: "map fst (tabs ?s) = [WelcomeId, TabId ''writing'' 1]" by code_simp
  have f: "findTabBySystem ?s ''writing'' = Some ?t" by code_simp
  have i: "tab_id ?t = TabId ''writing'' 1" by code_simp
  have ne: "tabs_of_system ?s ''writing'' \<noteq> []" by code_simp
  from unique_tab_per_system[of PortalConfig True ?evs "''writing''" ?t 3000 no_options] c f
  have "length (tabs_of_system ?s ''writing'') \<le> 1 \<and>
        map fst (tabs (openTab PortalConfig 3000 ''writing'' no_options ?s)) = map fst (tabs ?s) \<and>
        activeTab (openTab PortalConfig 3000 ''writing'' no_options ?s) = Some (tab_id ?t)"
    by blast
  then show ?thesis unfolding keys i using c ne by blast
qed

subsection \<open>Eviction\<close>

text \<open>
  The loop of \<open>closeOldestInactiveTab\<close>, from any values of its two variables: either no
  tab of the list is taken and the variables keep their values, every candidate being at
  least as recent as \<open>oldestTime\<close>; or the result is a candidate of the list, older than
  \<open>oldestTime\<close> and at least as old as every candidate.
\<close>

lemma scan_oldest_result:
  "scan_oldest ts acc b = r \<Longrightarrow>
   (r = acc \<and> (\<forall>u \<in> set ts. eviction_candidate u \<longrightarrow> (\<forall>y. lastActiveTime u = Some y \<longrightarrow> b \<le> y))) \<or>
   (\<exists>t x. r = Some t \<and> t \<in> set ts \<and> eviction_candidate t \<and> lastActiveTime t = Some x \<and> x < b \<and>
      (\<forall>u \<in> set ts. eviction_candidate u \<longrightarrow> (\<forall>y. lastActiveTime u = Some y \<longrightarrow> x \<le> y)))"
proof (induction ts arbitrary: acc b)
  case Nil
  then show ?case by simp
next
  case (Cons t ts)
  show ?case
  proof (cases "lastActiveTime t")
    case None
    with Cons.prems have "scan_oldest ts acc b = r" by simp
    from Cons.IH[OF this] None show ?thesis by auto
  next
    case (Some x)
    show ?thesis
    proof (cases "eviction_candidate t \<and> x < b")
      case True
      with Some Cons.prems have "scan_oldest ts (Some t) x = r"
        by (simp add: eviction_candidate_def)
      from Cons.IH[OF this] True Some show ?thesis by (auto intro!: exI[of _ x])
    next
      case False
      with Some Cons.prems have "scan_oldest ts acc b = r"
        by (auto simp: eviction_candidate_def)
      from Cons.IH[OF this] False Some show ?thesis by fastforce
    qed
  qed
qed

lemma oldestInactiveTab_Some:
  assumes "oldestInactiveTab now s = Some t"
  shows "t \<in> snd ` set (tabs s) \<and> eviction_candidate t \<and>
     (\<exists>x. lastActiveTime t = Some x \<and> x < now \<and>
        (\<forall>u \<in> snd ` set (tabs s). eviction_candidate u \<longrightarrow>
           (\<forall>y. lastActiveTime u = Some y \<longrightarrow> x \<le> y)))"
proof -
  from assms have "scan_oldest (map snd (tabs s)) None now = Some t"
    by (simp add: oldestInactiveTab_def)
  from scan_oldest_result[OF this] show ?thesis by auto
qed

lemma oldestInactiveTab_exists:
  assumes "u \<in> snd ` set (tabs s)" "eviction_candidate u" "lastActiveTime u = Some y" "y < now"
  shows "\<exists>t. oldestInactiveTab now s = Some t"
proof -
  obtain r where r: "scan_oldest (map snd (tabs s)) None now = r" by simp
  from scan_oldest_result[OF r] assms show ?thesis
    by (auto simp: oldestInactiveTab_def r)
qed

lemma closeTab_asks:
  "map_of (tabs s) k = Some t \<Longrightarrow> isClosable t \<Longrightarrow> asks_confirmation t c \<Longrightarrow>
   closeTab now k c s = s\<lparr> closeDialogs := closeDialogs s @ [k] \<rparr>"
  by (simp add: closeTab_def asks_confirmation_def)

lemma closeDialogs_openTab_new:
  "systems_property cfg name = Some sc \<Longrightarrow> findTabBySystem s name = None \<Longrightarrow>
   closeDialogs (openTab cfg now name opts s) =
     closeDialogs (if length (tabs s) \<ge> maxTabs s then closeOldestInactiveTab now s else s)"
  by (simp add: openTab_def Let_def scheduleTabLoad_def)

subsection \<open>Closing a tab\<close>

lemma keys_finishClose:
  "map fst (tabs (finishClose now k s)) = filter (\<lambda>k'. k' \<noteq> k) (map fst (tabs s))"
proof -
  have "map fst (tabs (finishClose now k s)) = map fst (skeleton (tabs (finishClose now k s)))"
    by (simp add: skeleton_keys)
  also have "\<dots> = map fst (filter (\<lambda>p. fst p \<noteq> k) (skeleton (tabs s)))"
    by (simp add: skeleton_finishClose)
  also have "\<dots> = filter (\<lambda>k'. k' \<noteq> k) (map fst (skeleton (tabs s)))"
    by (simp add: filter_map comp_def)
  finally show ?thesis by (simp add: skeleton_keys)
qed

lemma find_in_set: "find P xs = Some x \<Longrightarrow> x \<in> set xs"
  by (induction xs) (auto split: if_splits)

lemma next_tab_in_registry: "next_tab ts = Some k \<Longrightarrow> \<exists>t. map_of ts k = Some t"
proof -
  assume n: "next_tab ts = Some k"
  have "k \<in> fst ` set ts"
  proof (cases "find (\<lambda>(k, t). tab_type t = Welcome) ts")
    case None
    with n have "ts \<noteq> []" "k = fst (last ts)"
      by (auto simp: next_tab_def split: if_splits)
    then show ?thesis by simp
  next
    case (Some p)
    with n have "fst p = k" by (auto simp: next_tab_def split: prod.splits)
    moreover from Some have "p \<in> set ts" by (rule find_in_set)
    ultimately show ?thesis by force
  qed
  then show ?thesis by (cases "map_of ts k") (auto simp: map_of_eq_None_iff)
qed

lemma activateNextTab_next:
  "activateNextTab now s =
     (case next_tab (tabs s) of None \<Rightarrow> s | Some k \<Rightarrow> activateTab now k s)"
  by (auto simp: activateNextTab_def next_tab_def split: option.splits)

lemma activeTab_activateNextTab:
  "activeTab (activateNextTab now s) =
     (case next_tab (tabs s) of None \<Rightarrow> activeTab s | Some k \<Rightarrow> Some k)"
proof (cases "next_tab (tabs s)")
  case None
  then show ?thesis by (simp add: activateNextTab_next)
next
  case (Some k)
  from next_tab_in_registry[OF this] obtain t where "map_of (tabs s) k = Some t" by auto
  from activeTab_activateTab[OF this] Some show ?thesis by (simp add: activateNextTab_next)
qed

lemma activeTab_finishClose:
  "activeTab (finishClose now k s) =
     (if activeTab s = Some k
      then (case next_tab (AList.delete k (tabs s)) of None \<Rightarrow> Some k | Some k' \<Rightarrow> Some k')
      else activeTab s)"
  by (cases "next_tab (AList.delete k (tabs s))")
     (simp_all add: finishClose_def Let_def activeTab_activateNextTab)

lemma isActive_finishClose:
  assumes "activeTab s = Some k" "next_tab (AList.delete k (tabs s)) = Some k'"
  shows "\<exists>t'. map_of (tabs (finishClose now k s)) k' = Some t' \<and> isActive t'"
proof -
  let ?s1 = "s\<lparr> inactiveTabTimers := removeAll k (inactiveTabTimers s),
                lazyLoadQueue := removeAll k (lazyLoadQueue s),
                tabs := AList.delete k (tabs s) \<rparr>"
  from assms(2) have n: "next_tab (tabs ?s1) = Some k'" by simp
  from next_tab_in_registry[OF n] obtain t where "map_of (tabs ?s1) k' = Some t" by auto
  from isActive_activateTab[OF this, of now] assms(1) n show ?thesis
    by (simp add: finishClose_def Let_def activateNextTab_next)
qed

text \<open>
  Claim C9 as stated fails twice. On the shipped page: the user closes the tab of
  \<open>writing\<close>, which is closable, and cancels the confirmation; the tab stays. On a page
  without the welcome tab: \<open>writing\<close>, \<open>case2pg\<close> and \<open>censor\<close> are opened, \<open>writing\<close> is
  visited again, then \<open>censor\<close>, which is closed; of the two tabs that remain \<open>writing\<close> was
  active last (at 5, \<open>case2pg\<close> at 3), and \<open>case2pg\<close>, the last key of the map, is activated.
\<close>

theorem close_counterexample:
  "map_option isClosable
     (map_of (tabs (tab_run PortalConfig (TabManager True)
        [(1000, OpenTab ''writing'' no_options), (2000, CloseTab (TabId ''writing'' 1) True),
         (3000, AnswerCloseDialog (TabId ''writing'' 1) None)])) (TabId ''writing'' 1))
     = Some True \<and>
   map_option lastActiveTime
     (map_of (tabs (tab_run PortalConfig (TabManager False) no_welcome_run)) (TabId ''writing'' 1))
     = Some (Some 5) \<and>
   map_option lastActiveTime
     (map_of (tabs (tab_run PortalConfig (TabManager False) no_welcome_run)) (TabId ''case2pg'' 2))
     = Some (Some 3) \<and>
   activeTab (tab_run PortalConfig (TabManager False) no_welcome_run) = Some (TabId ''censor'' 3) \<and>
   map fst (tabs (tab_run PortalConfig (TabManager False)
      (no_welcome_run @ [(6, CloseTab (TabId ''censor'' 3) True),
                         (7, AnswerCloseDialog (TabId ''censor'' 3) (Some False))])))
     = [TabId ''writing'' 1, TabId ''case2pg'' 2] \<and>
   activeTab (tab_run PortalConfig (TabManager False)
      (no_welcome_run @ [(6, CloseTab (TabId ''censor'' 3) True),
                         (7, AnswerCloseDialog (TabId ''censor'' 3) (Some False))]))
     = Some (TabId ''case2pg'' 2)"
  by code_simp

text \<open>
  Claim C9, amended. \<open>closeTab\<close> changes nothing for a tab that is missing or not closable.
  For a closable system tab it first asks for confirmation (unless \<open>confirmClose\<close> is
  false) and the registry stays as it is when the user cancels; in the other cases the tab
  is removed. When the removed tab was the active one, the welcome tab is activated if the
  registry has one, else the tab at the end of the registry (the one opened last), and
  with no tab left \<open>activeTab\<close> is left alone.
\<close>

theorem close_behaviour:
  "(map_of (tabs s) k1 = None \<longrightarrow> closeTab now k1 c1 s = s) \<and>
   (map_of (tabs s) k2 = Some t2 \<and> \<not> isClosable t2 \<longrightarrow> closeTab now k2 c2 s = s) \<and>
   (map_of (tabs s) k3 = Some t3 \<and> isClosable t3 \<and> asks_confirmation t3 c3 \<longrightarrow>
      closeTab now k3 c3 s = s\<lparr> closeDialogs := closeDialogs s @ [k3] \<rparr> \<and>
      tabs (answerCloseDialog now' k3 None (closeTab now k3 c3 s)) = tabs s \<and>
      answerCloseDialog now' k3 (Some b) (closeTab now k3 c3 s) =
        finishClose now' k3 (s\<lparr> closeDialogs := remove1 k3 (closeDialogs s @ [k3]) \<rparr>)) \<and>
   (map_of (tabs s) k4 = Some t4 \<and> isClosable t4 \<and> \<not> asks_confirmation t4 c4 \<longrightarrow>
      closeTab now k4 c4 s = finishClose now k4 s) \<and>
   map fst (tabs (finishClose now k s)) = filter (\<lambda>k'. k' \<noteq> k) (map fst (tabs s)) \<and>
   activeTab (finishClose now k s) =
     (if activeTab s = Some k
      then (case next_tab (AList.delete k (tabs s)) of None \<Rightarrow> Some k | Some k' \<Rightarrow> Some k')
      else activeTab s) \<and>
   (activeTab s = Some k \<and> next_tab (AList.delete k (tabs s)) = Some k' \<longrightarrow>
      (\<exists>t'. map_of (tabs (finishClose now k s)) k' = Some t' \<and> isActive t'))"
proof -
  have p1: "map_of (tabs s) k1 = None \<longrightarrow> closeTab now k1 c1 s = s"
    by (simp add: closeTab_def)
  have p2: "map_of (tabs s) k2 = Some t2 \<and> \<not> isClosable t2 \<longrightarrow> closeTab now k2 c2 s = s"
    by (simp add: closeTab_def)
  have p3: "closeTab now k3 c3 s = s\<lparr> closeDialogs := closeDialogs s @ [k3] \<rparr> \<and>
      tabs (answerCloseDialog now' k3 None (closeTab now k3 c3 s)) = tabs s \<and>
      answerCloseDialog now' k3 (Some b) (closeTab now k3 c3 s) =
        finishClose now' k3 (s\<lparr> closeDialogs := remove1 k3 (closeDialogs s @ [k3]) \<rparr>)"
    if "map_of (tabs s) k3 = Some t3 \<and> isClosable t3 \<and> asks_confirmation t3 c3"
  proof -
    from that closeTab_asks[of s k3 t3 c3 now]
    have eq: "closeTab now k3 c3 s = s\<lparr> closeDialogs := closeDialogs s @ [k3] \<rparr>" by simp
    show ?thesis unfolding eq by (simp add: answerCloseDialog_def Let_def)
  qed
  have p4: "map_of (tabs s) k4 = Some t4 \<and> isClosable t4 \<and> \<not> asks_confirmation t4 c4 \<longrightarrow>
      closeTab now k4 c4 s = finishClose now k4 s"
    by (auto simp: closeTab_def asks_confirmation_def)
  note p5 = keys_finishClose[of now k s]
  note p6 = activeTab_finishClose[of now k s]
  have p7: "activeTab s = Some k \<and> next_tab (AList.delete k (tabs s)) = Some k' \<longrightarrow>
      (\<exists>t'. map_of (tabs (finishClose now k s)) k' = Some t' \<and> isActive t')"
    using isActive_finishClose[of s k k' now] by blast
  from p1 p2 p3 p4 p5 p6 p7 show ?thesis by blast
qed

text \<open>
  On the shipped page with \<open>writing\<close> and \<open>case2pg\<close> open: a tab that does not exist, the
  welcome tab, and the active tab of \<open>case2pg\<close>, closed with and without confirmation.
\<close>

theorem close_behaviour_witness:
  "closeTab 3 (TabId ''censor'' 3) True two_open = two_open \<and>
   closeTab 3 WelcomeId True two_open = two_open \<and>
   tabs (answerCloseDialog 4 (TabId ''case2pg'' 2) None
           (closeTab 3 (TabId ''case2pg'' 2) True two_open)) = tabs two_open \<and>
   closeTab 3 (TabId ''case2pg'' 2) False two_open = finishClose 3 (TabId ''case2pg'' 2) two_open \<and>
   map fst (tabs (finishClose 3 (TabId ''case2pg'' 2) two_open)) = [WelcomeId, TabId ''writing'' 1] \<and>
   activeTab (finishClose 3 (TabId ''case2pg'' 2) two_open) = Some WelcomeId"
proof -
  let ?k = "TabId ''case2pg'' 2"
  let ?t = "the (map_of (tabs two_open) ?k)"
  let ?w = "the (map_of (tabs two_open) WelcomeId)"
  have h1: "map_of (tabs two_open) (TabId ''censor'' 3) = None" by code_simp
  have h2: "map_of (tabs two_open) WelcomeId = Some ?w \<and> \<not> isClosable ?w" by code_simp
  have h3: "map_of (tabs two_open) ?k = Some ?t \<and> isClosable ?t \<and> asks_confirmation ?t True"
    by code_simp
  have h4: "map_of (tabs two_open) ?k = Some ?t \<and> isClosable ?t \<and> \<not> asks_confirmation ?t False"
    by code_simp
  have h5: "activeTab two_open = Some ?k \<and> next_tab (AList.delete ?k (tabs two_open)) = Some WelcomeId"
    by code_simp
  have keys: "filter (\<lambda>k'. k' \<noteq> ?k) (map fst (tabs two_open)) = [WelcomeId, TabId ''writing'' 1]"
    by code_simp
  note th = close_behaviour[of two_open "TabId ''censor'' 3" 3 True WelcomeId ?w True ?k ?t True 4
      False ?k ?t False ?k WelcomeId]
  from th h1 have a: "closeTab 3 (TabId ''censor'' 3) True two_open = two_open" by blast
  from th h2 have b: "closeTab 3 WelcomeId True two_open = two_open" by blast
  from th h3 have c: "tabs (answerCloseDialog 4 ?k None (closeTab 3 ?k True two_open)) = tabs two_open"
    by blast
  from th h4 have d: "closeTab 3 ?k False two_open = finishClose 3 ?k two_open" by blast
  from th have e: "map fst (tabs (finishClose 3 ?k two_open)) =
      filter (\<lambda>k'. k' \<noteq> ?k) (map fst (tabs two_open))" by blast
  from th have "activeTab (finishClose 3 ?k two_open) =
     (if activeTab two_open = Some ?k
      then (case next_tab (AList.delete ?k (tabs two_open)) of None \<Rightarrow> Some ?k | Some k' \<Rightarrow> Some k')
      else activeTab two_open)" by blast
  with h5 have f: "activeTab (finishClose 3 ?k two_open) = Some WelcomeId" by simp
  from a b c d e f show ?thesis unfolding keys by blast
qed

subsection \<open>Opening a tab\<close>

lemma finishClose_tabCounter [simp]: "tabCounter (finishClose now k s) = tabCounter s"
  by (simp add: finishClose_def Let_def activateNextTab_next split: option.splits)

lemma closeTab_tabCounter [simp]: "tabCounter (closeTab now k c s) = tabCounter s"
  by (simp add: closeTab_def split: option.splits)

lemma closeOldestInactiveTab_tabCounter [simp]:
  "tabCounter (closeOldestInactiveTab now s) = tabCounter s"
  by (simp add: closeOldestInactiveTab_def split: option.splits)

lemma loadTabContent_loaded:
  "map_of (tabs s) k = Some t \<Longrightarrow> isLoaded t \<Longrightarrow> loadTabContent now k s = s"
  by (simp add: loadTabContent_def)

lemma openTab_new_tab:
  assumes sc: "systems_property cfg systemName = Some sc"
    and nf: "findTabBySystem s systemName = None"
  shows "\<exists>t. map_of (tabs (openTab cfg now systemName options s))
               (TabId systemName (tabCounter s + 1)) = Some t \<and>
             status t = Some Loading \<and> isLoaded t"
    and "opt_priority options \<noteq> Some ''high'' \<and> \<not> immediate options \<longrightarrow>
           TabId systemName (tabCounter s + 1) \<in> set (lazyLoadQueue (openTab cfg now systemName options s)) \<and>
           TabId systemName (tabCounter s + 1) \<in> set (idleCallbacks (openTab cfg now systemName options s))"
proof -
  define s1 where "s1 = (if length (tabs s) \<ge> maxTabs s then closeOldestInactiveTab now s else s)"
  define k where "k = TabId systemName (tabCounter s + 1)"
  define nt where "nt = new_tab now systemName sc options k"
  define s2 where "s2 = s1\<lparr> tabCounter := tabCounter s + 1, tabs := AList.update k nt (tabs s1) \<rparr>"
  define s3 where "s3 = activateTab now k s2"
  have c1: "tabCounter s1 = tabCounter s" by (simp add: s1_def)
  have m2: "map_of (tabs s2) k = Some nt" by (simp add: s2_def update_conv')
  have nt: "\<not> isLoaded nt" "tab_type nt = System" by (simp_all add: nt_def new_tab_def)
  from map_of_activateTab_same[OF m2, of now] nt
  obtain t where t: "map_of (tabs s3) k = Some t" "status t = Some Loading" "isLoaded t"
    by (simp add: s3_def Let_def)
  have unfold: "openTab cfg now systemName options s =
      (if opt_priority options = Some ''high'' \<or> immediate options
       then loadTabContent now k s3
       else scheduleTabLoad k (s3\<lparr> lazyLoadQueue := set_add k (lazyLoadQueue s3) \<rparr>))
      \<lparr> currentSystem := Some systemName \<rparr>"
    using sc nf c1
    by (simp add: openTab_def Let_def s1_def[symmetric] k_def s2_def s3_def nt_def)
  show "\<exists>t. map_of (tabs (openTab cfg now systemName options s))
               (TabId systemName (tabCounter s + 1)) = Some t \<and>
             status t = Some Loading \<and> isLoaded t"
    unfolding unfold k_def[symmetric]
    using t loadTabContent_loaded[OF t(1) t(3), of now]
    by (simp add: scheduleTabLoad_def)
  show "opt_priority options \<noteq> Some ''high'' \<and> \<not> immediate options \<longrightarrow>
           TabId systemName (tabCounter s + 1) \<in> set (lazyLoadQueue (openTab cfg now systemName options s)) \<and>
           TabId systemName (tabCounter s + 1) \<in> set (idleCallbacks (openTab cfg now systemName options s))"
    unfolding unfold k_def[symmetric]
    by (simp add: scheduleTabLoad_def set_add_def)
qed

lemma idleCallback_loaded:
  "map_of (tabs s) k = Some t \<Longrightarrow> isLoaded t \<Longrightarrow> tabs (idleCallback now k s) = tabs s"
proof -
  assume m: "map_of (tabs s) k = Some t" and l: "isLoaded t"
  let ?s1 = "s\<lparr> idleCallbacks := remove1 k (idleCallbacks s) \<rparr>"
  from m have "map_of (tabs ?s1) k = Some t" by simp
  from loadTabContent_loaded[OF this l] show ?thesis
    by (simp add: idleCallback_def Let_def)
qed

text \<open>
  Claim C3 describes two ways for a new tab: loading at once for \<open>priority = high\<close> or
  \<open>immediate\<close>, and staying \<open>Pending\<close> in the queue otherwise. In the code every new tab is
  loading when \<open>openTab\<close> returns, whatever the options: \<open>openTab\<close> activates the tab, and
  \<open>activateTab\<close> loads a system tab that is not loaded. Without the two options the tab
  is put in the queue and a callback is scheduled all the same, and that callback finds
  the tab loaded and leaves the registry as it is.
\<close>

theorem new_tab_loads_at_once:
  "systems_property cfg systemName = Some sc \<and> findTabBySystem s systemName = None \<longrightarrow>
     (\<exists>t. map_of (tabs (openTab cfg now systemName options s))
             (TabId systemName (tabCounter s + 1)) = Some t \<and>
           status t = Some Loading \<and> isLoaded t) \<and>
     (opt_priority options \<noteq> Some ''high'' \<and> \<not> immediate options \<longrightarrow>
        TabId systemName (tabCounter s + 1)
          \<in> set (lazyLoadQueue (openTab cfg now systemName options s)) \<and>
        TabId systemName (tabCounter s + 1)
          \<in> set (idleCallbacks (openTab cfg now systemName options s)) \<and>
        tabs (idleCallback now' (TabId systemName (tabCounter s + 1))
                (openTab cfg now systemName options s))
          = tabs (openTab cfg now systemName options s))"
proof (intro impI)
  assume a: "systems_property cfg systemName = Some sc \<and> findTabBySystem s systemName = None"
  then have sc: "systems_property cfg systemName = Some sc"
    and nf: "findTabBySystem s systemName = None" by simp_all
  from openTab_new_tab(1)[OF sc nf, of now options]
  obtain t where t: "map_of (tabs (openTab cfg now systemName options s))
      (TabId systemName (tabCounter s + 1)) = Some t" "status t = Some Loading" "isLoaded t"
    by blast
  from idleCallback_loaded[OF t(1) t(3), of now'] openTab_new_tab(2)[OF sc nf, of options now] t
  show "(\<exists>t. map_of (tabs (openTab cfg now systemName options s))
             (TabId systemName (tabCounter s + 1)) = Some t \<and>
           status t = Some Loading \<and> isLoaded t) \<and>
     (opt_priority options \<noteq> Some ''high'' \<and> \<not> immediate options \<longrightarrow>
        TabId systemName (tabCounter s + 1)
          \<in> set (lazyLoadQueue (openTab cfg now systemName options s)) \<and>
        TabId systemName (tabCounter s + 1)
          \<in> set (idleCallbacks (openTab cfg now systemName options s)) \<and>
        tabs (idleCallback now' (TabId systemName (tabCounter s + 1))
                (openTab cfg now systemName options s))
          = tabs (openTab cfg now systemName options s))"
    by blast
qed

text \<open>The first \<open>openTab('writing')\<close> on the shipped page, with no options.\<close>

theorem new_tab_loads_at_once_witness:
  "map_option status
     (map_of (tabs (openTab PortalConfig 1000 ''writing'' no_options (TabManager True)))
        (TabId ''writing'' 1)) = Some (Some Loading) \<and>
   lazyLoadQueue (openTab PortalConfig 1000 ''writing'' no_options (TabManager True))
     = [TabId ''writing'' 1] \<and>
   tabs (idleCallback 2000 (TabId ''writing'' 1)
           (openTab PortalConfig 1000 ''writing'' no_options (TabManager True)))
     = tabs (openTab PortalConfig 1000 ''writing'' no_options (TabManager True))"
proof -
  let ?s = "TabManager True"
  let ?sc = "the (systems_property PortalConfig ''writing'')"
  have h: "systems_property PortalConfig ''writing'' = Some ?sc \<and>
      findTabBySystem ?s ''writing'' = None" by code_simp
  have o: "opt_priority no_options \<noteq> Some ''high'' \<and> \<not> immediate no_options" by code_simp
  have c: "tabCounter ?s + 1 = 1" by code_simp
  have q: "lazyLoadQueue (openTab PortalConfig 1000 ''writing'' no_options ?s) = [TabId ''writing'' 1]"
    by code_simp
  from new_tab_loads_at_once[of PortalConfig "''writing''" ?sc ?s 1000 no_options 2000] h o
  have "(\<exists>t. map_of (tabs (openTab PortalConfig 1000 ''writing'' no_options ?s))
             (TabId ''writing'' (tabCounter ?s + 1)) = Some t \<and> status t = Some Loading) \<and>
        tabs (idleCallback 2000 (TabId ''writing'' (tabCounter ?s + 1))
                (openTab PortalConfig 1000 ''writing'' no_options ?s))
          = tabs (openTab PortalConfig 1000 ''writing'' no_options ?s)"
    by blast
  then show ?thesis unfolding c using q by auto
qed

subsection \<open>Eviction at capacity\<close>

lemma closeOldestInactiveTab_asks:
  assumes ok: "registry_ok s" and sel: "oldestInactiveTab now s = Some t"
    and ask: "asks_confirmation t True"
  shows "closeOldestInactiveTab now s = s\<lparr> closeDialogs := closeDialogs s @ [tab_id t] \<rparr>"
    and "tab_id t \<in> set (map fst (tabs s))"
proof -
  from oldestInactiveTab_Some[OF sel] have t: "t \<in> snd ` set (tabs s)" "isClosable t"
    by (auto simp: eviction_candidate_def)
  then obtain k where k: "(k, t) \<in> set (tabs s)" by auto
  from registry_ok_key[OF ok k] have m: "tab_id t = k" "map_of (tabs s) (tab_id t) = Some t"
    by simp_all
  from closeTab_asks[OF m(2) t(2) ask, of now] sel
  show "closeOldestInactiveTab now s = s\<lparr> closeDialogs := closeDialogs s @ [tab_id t] \<rparr>"
    by (simp add: closeOldestInactiveTab_def)
  from k m(1) show "tab_id t \<in> set (map fst (tabs s))" by force
qed

lemma skeleton_openTab_new:
  assumes sc: "systems_property cfg name = Some sc" and nf: "findTabBySystem s name = None"
  shows "skeleton (tabs (openTab cfg now name opts s)) =
     AList.update (TabId name (tabCounter s + 1)) (TabId name (tabCounter s + 1), Some name)
       (skeleton (tabs (if maxTabs s \<le> length (tabs s) then closeOldestInactiveTab now s else s)))"
  using sc nf by (simp add: openTab_def Let_def skeleton_update new_tab_def)

lemma keys_openTab_new:
  assumes sc: "systems_property cfg name = Some sc" and nf: "findTabBySystem s name = None"
  shows "set (map fst (tabs (openTab cfg now name opts s))) =
     insert (TabId name (tabCounter s + 1))
       (set (map fst (tabs (if maxTabs s \<le> length (tabs s)
                             then closeOldestInactiveTab now s else s))))"
proof -
  let ?s1 = "if maxTabs s \<le> length (tabs s) then closeOldestInactiveTab now s else s"
  let ?k = "TabId name (tabCounter s + 1)"
  have "map fst (tabs (openTab cfg now name opts s))
      = map fst (skeleton (tabs (openTab cfg now name opts s)))"
    by (simp only: skeleton_keys)
  also have "\<dots> = map fst (AList.update ?k (?k, Some name) (skeleton (tabs ?s1)))"
    by (simp only: skeleton_openTab_new[OF sc nf])
  finally have "set (map fst (tabs (openTab cfg now name opts s)))
      = fst ` set (AList.update ?k (?k, Some name) (skeleton (tabs ?s1)))"
    by (simp only: set_map)
  also have "\<dots> = insert ?k (set (map fst (skeleton (tabs ?s1))))"
    by (simp only: dom_update set_map) simp
  finally show ?thesis by (simp only: skeleton_keys)
qed

lemma tabs_answerCloseDialog_cancel: "tabs (answerCloseDialog now k None s) = tabs s"
  by (simp add: answerCloseDialog_def Let_def)

lemma keys_answerCloseDialog_confirm:
  "k \<in> set (closeDialogs s) \<Longrightarrow>
   k \<notin> set (map fst (tabs (answerCloseDialog now k (Some b) s)))"
  by (simp add: answerCloseDialog_def Let_def keys_finishClose)

text \<open>
  Claim C7 says that \<open>openTab\<close> at capacity evicts the closable, inactive tab that was
  active the longest ago. The code selects that tab and does not evict it. A tab is
  selected exactly when some closable, inactive tab was last active before \<open>Date.now()\<close>,
  and the selected tab is one with the smallest \<open>lastActiveTime\<close> among the closable,
  inactive tabs. For a system tab, what \<open>openTab\<close> then does is to open the confirmation
  dialog of that tab: when \<open>openTab\<close> returns the selected tab is still in the registry,
  beside the new one; it stays when the user cancels the dialog and leaves only when the
  user confirms.
\<close>

theorem eviction_leaves_tab:
  "((\<exists>t'. oldestInactiveTab now s = Some t') \<longleftrightarrow>
      (\<exists>u \<in> snd ` set (tabs s). eviction_candidate u \<and>
         (\<exists>y. lastActiveTime u = Some y \<and> y < now))) \<and>
   (registry_ok s \<and> systems_property cfg systemName \<noteq> None \<and>
    findTabBySystem s systemName = None \<and> maxTabs s \<le> length (tabs s) \<and>
    oldestInactiveTab now s = Some t \<and> asks_confirmation t True
      \<longrightarrow> t \<in> snd ` set (tabs s) \<and> eviction_candidate t \<and>
          (\<exists>x. lastActiveTime t = Some x \<and> x < now \<and>
             (\<forall>u \<in> snd ` set (tabs s). eviction_candidate u \<longrightarrow>
                (\<forall>y. lastActiveTime u = Some y \<longrightarrow> x \<le> y))) \<and>
          closeDialogs (openTab cfg now systemName options s) = closeDialogs s @ [tab_id t] \<and>
          set (map fst (tabs (openTab cfg now systemName options s)))
            = insert (TabId systemName (tabCounter s + 1)) (set (map fst (tabs s))) \<and>
          tab_id t \<in> set (map fst (tabs (openTab cfg now systemName options s))) \<and>
          tabs (answerCloseDialog now' (tab_id t) None (openTab cfg now systemName options s))
            = tabs (openTab cfg now systemName options s) \<and>
          tab_id t \<notin> set (map fst (tabs (answerCloseDialog now' (tab_id t) (Some b)
                                            (openTab cfg now systemName options s)))))"
proof -
  have p1: "(\<exists>t'. oldestInactiveTab now s = Some t') \<longleftrightarrow>
      (\<exists>u \<in> snd ` set (tabs s). eviction_candidate u \<and>
         (\<exists>y. lastActiveTime u = Some y \<and> y < now))"
  proof
    assume "\<exists>t'. oldestInactiveTab now s = Some t'"
    then obtain t' where "oldestInactiveTab now s = Some t'" by auto
    from oldestInactiveTab_Some[OF this]
    show "\<exists>u \<in> snd ` set (tabs s). eviction_candidate u \<and>
         (\<exists>y. lastActiveTime u = Some y \<and> y < now)" by blast
  next
    assume "\<exists>u \<in> snd ` set (tabs s). eviction_candidate u \<and>
         (\<exists>y. lastActiveTime u = Some y \<and> y < now)"
    then show "\<exists>t'. oldestInactiveTab now s = Some t'"
      using oldestInactiveTab_exists[of _ s _ now] by blast
  qed
  have p2: "t \<in> snd ` set (tabs s) \<and> eviction_candidate t \<and>
          (\<exists>x. lastActiveTime t = Some x \<and> x < now \<and>
             (\<forall>u \<in> snd ` set (tabs s). eviction_candidate u \<longrightarrow>
                (\<forall>y. lastActiveTime u = Some y \<longrightarrow> x \<le> y))) \<and>
          closeDialogs (openTab cfg now systemName options s) = closeDialogs s @ [tab_id t] \<and>
          set (map fst (tabs (openTab cfg now systemName options s)))
            = insert (TabId systemName (tabCounter s + 1)) (set (map fst (tabs s))) \<and>
          tab_id t \<in> set (map fst (tabs (openTab cfg now systemName options s))) \<and>
          tabs (answerCloseDialog now' (tab_id t) None (openTab cfg now systemName options s))
            = tabs (openTab cfg now systemName options s) \<and>
          tab_id t \<notin> set (map fst (tabs (answerCloseDialog now' (tab_id t) (Some b)
                                            (openTab cfg now systemName options s))))"
    if a: "registry_ok s \<and> systems_property cfg systemName \<noteq> None \<and>
      findTabBySystem s systemName = None \<and> maxTabs s \<le> length (tabs s) \<and>
      oldestInactiveTab now s = Some t \<and> asks_confirmation t True"
  proof -
    from a obtain sc where sc: "systems_property cfg systemName = Some sc" by auto
    from a have ok: "registry_ok s" and nf: "findTabBySystem s systemName = None"
      and full: "maxTabs s \<le> length (tabs s)" and sel: "oldestInactiveTab now s = Some t"
      and ask: "asks_confirmation t True" by simp_all
    note c = closeOldestInactiveTab_asks[OF ok sel ask]
    have dlg: "closeDialogs (openTab cfg now systemName options s) = closeDialogs s @ [tab_id t]"
      using closeDialogs_openTab_new[OF sc nf, of now options] full c(1) by simp
    have keys: "set (map fst (tabs (openTab cfg now systemName options s)))
        = insert (TabId systemName (tabCounter s + 1)) (set (map fst (tabs s)))"
      using keys_openTab_new[OF sc nf, of now options] full c(1) by simp
    from keys c(2) have still: "tab_id t \<in> set (map fst (tabs (openTab cfg now systemName options s)))"
      by simp
    from dlg have "tab_id t \<in> set (closeDialogs (openTab cfg now systemName options s))" by simp
    from keys_answerCloseDialog_confirm[OF this, of now' b]
    have gone: "tab_id t \<notin> set (map fst (tabs (answerCloseDialog now' (tab_id t) (Some b)
                                            (openTab cfg now systemName options s))))" .
    from oldestInactiveTab_Some[OF sel] dlg keys still gone show ?thesis
      by (simp only: tabs_answerCloseDialog_cancel) blast
  qed
  from p1 p2 show ?thesis by blast
qed

text \<open>
  With ten systems and the limit of the constructor: nine systems are open, the tab of
  \<open>s0\<close> was visited again, and \<open>s9\<close> is opened at 12; the tab of \<open>s1\<close>, last active at 3, is
  selected, and the registry has eleven tabs, that of \<open>s1\<close> among them. The example of the
  specification: \<open>qa_sys\<close> is opened at 30; T3, the tab of \<open>censor\<close>, last active at 5, is
  selected, and the registry holds it and four other tabs afterwards. On the shipped page
  with two systems opened at 1 and 2, no tab is selected at 2: the only closable, inactive
  tab was last active at 2.
\<close>

theorem eviction_leaves_tab_witness:
  "maxTabs full_registry = 10 \<and> length (tabs full_registry) = 10 \<and>
   map_option (\<lambda>t. (tab_id t, lastActiveTime t)) (oldestInactiveTab 12 full_registry)
     = Some (TabId ''s1'' 2, Some 3) \<and>
   closeDialogs (openTab ten_systems 12 ''s9'' no_options full_registry) = [TabId ''s1'' 2] \<and>
   TabId ''s1'' 2 \<in> set (map fst (tabs (openTab ten_systems 12 ''s9'' no_options full_registry))) \<and>
   length (tabs (openTab ten_systems 12 ''s9'' no_options full_registry)) = 11 \<and>
   TabId ''s1'' 2 \<notin> set (map fst (tabs (answerCloseDialog 13 (TabId ''s1'' 2) (Some False)
       (openTab ten_systems 12 ''s9'' no_options full_registry)))) \<and>
   maxTabs spec_example = 4 \<and>
   map (\<lambda>(k, t). (k, isClosable t, isActive t, lastActiveTime t)) (tabs spec_example)
     = [(WelcomeId, False, True, Some 20), (TabId ''censor'' 1, True, False, Some 5),
        (TabId ''writing'' 2, True, False, Some 10), (TabId ''case2pg'' 3, True, False, Some 20)] \<and>
   map_option tab_id (oldestInactiveTab 30 spec_example) = Some (TabId ''censor'' 1) \<and>
   closeDialogs (openTab PortalConfig 30 ''qa_sys'' no_options spec_example)
     = [TabId ''censor'' 1] \<and>
   TabId ''censor'' 1
     \<in> set (map fst (tabs (openTab PortalConfig 30 ''qa_sys'' no_options spec_example))) \<and>
   map fst (tabs (answerCloseDialog 31 (TabId ''censor'' 1) None
       (openTab PortalConfig 30 ''qa_sys'' no_options spec_example)))
     = [WelcomeId, TabId ''censor'' 1, TabId ''writing'' 2, TabId ''case2pg'' 3,
        TabId ''qa_sys'' 4] \<and>
   oldestInactiveTab 2 two_open = None \<and>
   \<not> (\<exists>u \<in> snd ` set (tabs two_open). eviction_candidate u \<and>
         (\<exists>y. lastActiveTime u = Some y \<and> y < 2))"
proof -
  let ?t = "the (oldestInactiveTab 12 full_registry)"
  let ?u = "the (oldestInactiveTab 30 spec_example)"
  let ?o1 = "openTab ten_systems 12 ''s9'' no_options full_registry"
  let ?o2 = "openTab PortalConfig 30 ''qa_sys'' no_options spec_example"
  have ok1: "registry_ok full_registry"
    unfolding full_registry_def by (rule registry_ok_run[OF registry_ok_TabManager])
  have "registry_ok ((TabManager True) \<lparr> maxTabs := 4 \<rparr>)"
    using registry_ok_TabManager[of True] by (simp add: registry_ok_def)
  then have ok2: "registry_ok spec_example"
    unfolding spec_example_def by (rule registry_ok_run)
  have h1: "systems_property ten_systems ''s9'' \<noteq> None \<and>
      findTabBySystem full_registry ''s9'' = None \<and>
      maxTabs full_registry \<le> length (tabs full_registry) \<and>
      oldestInactiveTab 12 full_registry = Some ?t \<and> asks_confirmation ?t True"
    by code_simp
  have h2: "systems_property PortalConfig ''qa_sys'' \<noteq> None \<and>
      findTabBySystem spec_example ''qa_sys'' = None \<and>
      maxTabs spec_example \<le> length (tabs spec_example) \<and>
      oldestInactiveTab 30 spec_example = Some ?u \<and> asks_confirmation ?u True"
    by code_simp
  have v1: "maxTabs full_registry = 10 \<and> length (tabs full_registry) = 10 \<and>
      map_option (\<lambda>t. (tab_id t, lastActiveTime t)) (oldestInactiveTab 12 full_registry)
        = Some (TabId ''s1'' 2, Some 3) \<and>
      tab_id ?t = TabId ''s1'' 2 \<and> closeDialogs full_registry = [] \<and> length (tabs ?o1) = 11"
    by code_simp
  have v2: "maxTabs spec_example = 4 \<and>
      map (\<lambda>(k, t). (k, isClosable t, isActive t, lastActiveTime t)) (tabs spec_example)
        = [(WelcomeId, False, True, Some 20), (TabId ''censor'' 1, True, False, Some 5),
           (TabId ''writing'' 2, True, False, Some 10), (TabId ''case2pg'' 3, True, False, Some 20)] \<and>
      map_option tab_id (oldestInactiveTab 30 spec_example) = Some (TabId ''censor'' 1) \<and>
      tab_id ?u = TabId ''censor'' 1 \<and> closeDialogs spec_example = [] \<and>
      map fst (tabs ?o2) = [WelcomeId, TabId ''censor'' 1, TabId ''writing'' 2,
        TabId ''case2pg'' 3, TabId ''qa_sys'' 4]"
    by code_simp
  have v3: "oldestInactiveTab 2 two_open = None" by code_simp
  from eviction_leaves_tab[of 12 full_registry ten_systems "''s9''" ?t no_options 13 False]
    ok1 h1
  have r1: "closeDialogs ?o1 = closeDialogs full_registry @ [tab_id ?t] \<and>
      tab_id ?t \<in> set (map fst (tabs ?o1)) \<and>
      tab_id ?t \<notin> set (map fst (tabs (answerCloseDialog 13 (tab_id ?t) (Some False) ?o1)))"
    by blast
  from eviction_leaves_tab[of 30 spec_example PortalConfig "''qa_sys''" ?u no_options 31 False]
    ok2 h2
  have r2: "closeDialogs ?o2 = closeDialogs spec_example @ [tab_id ?u] \<and>
      tab_id ?u \<in> set (map fst (tabs ?o2)) \<and>
      tabs (answerCloseDialog 31 (tab_id ?u) None ?o2) = tabs ?o2"
    by blast
  from eviction_leaves_tab[of 2 two_open] v3
  have r3: "\<not> (\<exists>u \<in> snd ` set (tabs two_open). eviction_candidate u \<and>
         (\<exists>y. lastActiveTime u = Some y \<and> y < 2))"
    by simp
  from r1 r2 r3 v1 v2 v3 show ?thesis by simp
qed

subsection \<open>The size of the registry\<close>

text \<open>
  As long as \<open>openTab\<close> is not called with a name that \<open>PortalConfig.systems\<close> inherits, the
  registry holds the welcome tab and at most one tab for each configured system. With the
  four systems of the shipped configuration that makes five tabs, so there the limit of
  ten tabs that the constructor sets is not reached, and \<open>closeOldestInactiveTab\<close> is not
  called.
\<close>

lemma configured_shrink:
  "configured cfg s \<Longrightarrow> skeleton (tabs s') = filter Q (skeleton (tabs s)) \<Longrightarrow> configured cfg s'"
  by (simp add: configured_def)

lemma configured_same:
  "configured cfg s \<Longrightarrow> skeleton (tabs s') = skeleton (tabs s) \<Longrightarrow> configured cfg s'"
  by (simp add: configured_def)

lemma configured_TabManager: "configured cfg (TabManager b)"
  by (simp add: configured_def entry_ok_def skeleton_def TabManager_def createWelcomeTab_def
      welcomeTab_def Let_def)

lemma configured_openTab:
  assumes ok: "configured cfg s" and own: "name \<notin> set object_prototype_names"
  shows "configured cfg (openTab cfg now name opts s)"
proof (cases "systems_property cfg name")
  case None
  with ok show ?thesis by (simp add: openTab_def)
next
  case (Some sc)
  with own have "map_of (systems cfg) name = Some sc" by (simp add: systems_property_own)
  then have dom: "name \<in> fst ` set (systems cfg)" by (force dest: map_of_SomeD)
  show ?thesis
  proof (cases "findTabBySystem s name")
    case (Some t)
    with \<open>systems_property cfg name = Some sc\<close> ok show ?thesis
      by (auto simp: openTab_def intro: configured_same)
  next
    case None
    define s1 where "s1 = (if length (tabs s) \<ge> maxTabs s then closeOldestInactiveTab now s else s)"
    define k where "k = TabId name (tabCounter s1 + 1)"
    obtain Q where Q: "skeleton (tabs s1) = filter Q (skeleton (tabs s))"
    proof (cases "length (tabs s) \<ge> maxTabs s")
      case True
      with skeleton_closeOldestInactiveTab[of now s] that show ?thesis
        by (auto simp: s1_def)
    next
      case False
      with that[of "\<lambda>_. True"] show ?thesis by (simp add: s1_def)
    qed
    have "skeleton (tabs (openTab cfg now name opts s)) =
          skeleton (AList.update k (new_tab now name sc opts k) (tabs s1))"
      using None \<open>systems_property cfg name = Some sc\<close>
      unfolding k_def s1_def by (simp add: openTab_def Let_def)
    also have "\<dots> = AList.update k (k, Some name) (skeleton (tabs s1))"
      by (simp add: skeleton_update new_tab_def)
    finally have "set (skeleton (tabs (openTab cfg now name opts s)))
        \<subseteq> insert (k, k, Some name) (set (skeleton (tabs s)))"
      using set_update_subset[of k "(k, Some name)" "skeleton (tabs s1)"] Q by auto
    moreover have "entry_ok cfg (k, k, Some name)" using dom by (simp add: entry_ok_def)
    ultimately show ?thesis using ok unfolding configured_def by blast
  qed
qed

lemma configured_step:
  "configured cfg s \<Longrightarrow> opens_own_name e \<Longrightarrow> configured cfg (tab_step cfg s e)"
proof -
  assume ok: "configured cfg s" and own: "opens_own_name e"
  obtain now ev where e: "e = (now, ev)" by (cases e)
  show ?thesis
  proof (cases ev)
    case (OpenTab name opts)
    with e own have "name \<notin> set object_prototype_names" by (simp add: opens_own_name_def)
    with OpenTab e ok show ?thesis by (simp add: configured_openTab)
  next
    case (ActivateTab k)
    with e ok show ?thesis by (auto intro: configured_same)
  next
    case (CloseTab k c)
    with e ok skeleton_closeTab[of now k c s] show ?thesis by (auto intro: configured_shrink)
  next
    case (AnswerCloseDialog k a)
    with e ok skeleton_answerCloseDialog[of now k a s] show ?thesis
      by (auto intro: configured_shrink)
  next
    case (IdleCallback k)
    with e ok show ?thesis by (auto intro: configured_same)
  next
    case (IframeLoad k)
    with e ok show ?thesis by (auto intro: configured_same)
  next
    case (IframeError k)
    with e ok show ?thesis by (auto intro: configured_same)
  next
    case (UnloadTimer k b)
    with e ok show ?thesis by (auto intro: configured_same)
  next
    case Destroy
    with e show ?thesis by (simp add: destroy_def configured_def)
  qed
qed

lemma configured_run:
  "configured cfg s \<Longrightarrow> list_all opens_own_name evs \<Longrightarrow> configured cfg (tab_run cfg s evs)"
  unfolding tab_run_def by (induction evs arbitrary: s) (simp_all add: configured_step)

lemma skeleton_systems_distinct:
  "distinct (map fst sk) \<Longrightarrow> \<forall>p \<in> set sk. snd (snd p) = None \<longrightarrow> fst p = WelcomeId \<Longrightarrow>
   \<forall>name. length (filter (\<lambda>p. snd (snd p) = Some name) sk) \<le> 1 \<Longrightarrow>
   distinct (map (\<lambda>p. snd (snd p)) sk)"
proof (induction sk)
  case Nil
  then show ?case by simp
next
  case (Cons p ps)
  have rest: "\<forall>name. length (filter (\<lambda>p. snd (snd p) = Some name) ps) \<le> 1"
  proof
    fix name
    have "length (filter (\<lambda>p. snd (snd p) = Some name) ps)
        \<le> length (filter (\<lambda>p. snd (snd p) = Some name) (p # ps))" by simp
    also have "\<dots> \<le> 1" using Cons.prems(3) by blast
    finally show "length (filter (\<lambda>p. snd (snd p) = Some name) ps) \<le> 1" .
  qed
  from Cons.prems rest have d: "distinct (map (\<lambda>p. snd (snd p)) ps)"
    by (intro Cons.IH) simp_all
  have "snd (snd p) \<notin> (\<lambda>p. snd (snd p)) ` set ps"
  proof
    assume "snd (snd p) \<in> (\<lambda>p. snd (snd p)) ` set ps"
    then obtain q where q: "q \<in> set ps" "snd (snd q) = snd (snd p)" by auto
    show False
    proof (cases "snd (snd p)")
      case None
      with q Cons.prems(2) have "fst p = WelcomeId" "fst q = WelcomeId" by simp_all
      with q(1) Cons.prems(1) show False by force
    next
      case (Some x)
      with q have "filter (\<lambda>p. snd (snd p) = Some x) ps \<noteq> []"
        by (auto simp: filter_empty_conv)
      then have "1 \<le> length (filter (\<lambda>p. snd (snd p) = Some x) ps)"
        by (cases "filter (\<lambda>p. snd (snd p) = Some x) ps") simp_all
      with Some have "2 \<le> length (filter (\<lambda>p. snd (snd p) = Some x) (p # ps))" by simp
      with Cons.prems(3) show False by (metis numeral_le_one_iff order_trans semiring_norm(69))
    qed
  qed
  with d show ?case by simp
qed

lemma registry_size:
  assumes "registry_ok s" "configured cfg s"
  shows "length (tabs s) \<le> Suc (length (systems cfg))"
proof -
  let ?sk = "skeleton (tabs s)"
  let ?D = "fst ` set (systems cfg)"
  from assms(2) have none: "\<forall>p \<in> set ?sk. snd (snd p) = None \<longrightarrow> fst p = WelcomeId"
    by (auto simp: configured_def entry_ok_def)
  from assms(1) none have "distinct (map (\<lambda>p. snd (snd p)) ?sk)"
    by (intro skeleton_systems_distinct) (simp_all add: registry_ok_def skeleton_ok_def)
  then have "length ?sk = card ((\<lambda>p. snd (snd p)) ` set ?sk)"
    by (metis distinct_card length_map set_map)
  also have "(\<lambda>p. snd (snd p)) ` set ?sk \<subseteq> insert None (Some ` ?D)"
  proof
    fix n assume "n \<in> (\<lambda>p. snd (snd p)) ` set ?sk"
    then obtain p where "p \<in> set ?sk" "n = snd (snd p)" by auto
    with assms(2) have "\<forall>x. n = Some x \<longrightarrow> x \<in> ?D"
      by (simp add: configured_def entry_ok_def)
    then show "n \<in> insert None (Some ` ?D)" by (cases n) simp_all
  qed
  then have "card ((\<lambda>p. snd (snd p)) ` set ?sk) \<le> card (insert None (Some ` ?D))"
    by (intro card_mono) simp_all
  also have "\<dots> \<le> Suc (card ?D)"
    by (simp add: card_insert_if card_image_le le_SucI)
  also have "card ?D \<le> length (systems cfg)"
    by (metis card_image_le card_length le_trans List.finite_set)
  finally show ?thesis by (simp add: skeleton_def)
qed

lemma maxTabs_activateNextTab [simp]: "maxTabs (activateNextTab now s) = maxTabs s"
  by (simp add: activateNextTab_next split: option.splits)

lemma maxTabs_finishClose [simp]: "maxTabs (finishClose now k s) = maxTabs s"
  by (simp add: finishClose_def Let_def)

lemma maxTabs_closeTab [simp]: "maxTabs (closeTab now k c s) = maxTabs s"
  by (simp add: closeTab_def split: option.splits)

lemma maxTabs_openTab [simp]: "maxTabs (openTab cfg now name opts s) = maxTabs s"
  by (simp add: openTab_def Let_def closeOldestInactiveTab_def scheduleTabLoad_def
      split: option.splits)

lemma maxTabs_step: "maxTabs (tab_step cfg s e) = maxTabs s"
proof -
  obtain now ev where e: "e = (now, ev)" by (cases e)
  show ?thesis unfolding e
    by (cases ev)
       (simp_all add: answerCloseDialog_def idleCallback_def onIframeLoad_def onIframeError_def
          unloadInactiveTab_def destroy_def scheduleTabLoad_def Let_def
          split: option.splits list.splits)
qed

lemma maxTabs_run: "maxTabs (tab_run cfg s evs) = maxTabs s"
  unfolding tab_run_def by (induction evs arbitrary: s) (simp_all add: maxTabs_step)

lemma shipped_registry_size:
  assumes "list_all opens_own_name evs"
  shows "length (tabs (tab_run PortalConfig (TabManager b) evs)) \<le> 5 \<and>
   maxTabs (tab_run PortalConfig (TabManager b) evs) = 10"
proof -
  let ?s = "tab_run PortalConfig (TabManager b) evs"
  have "registry_ok ?s" by (rule registry_ok_run[OF registry_ok_TabManager])
  moreover have "configured PortalConfig ?s"
    by (rule configured_run[OF configured_TabManager assms])
  ultimately have "length (tabs ?s) \<le> Suc (length (systems PortalConfig))"
    by (rule registry_size)
  moreover have "maxTabs ?s = 10"
    by (simp add: maxTabs_run TabManager_def createWelcomeTab_def Let_def)
  ultimately show ?thesis by (simp add: PortalConfig_def)
qed

text \<open>
  Claim C1, that the registry holds at most \<open>maxTabs\<close> tabs after every \<open>openTab\<close>, fails
  as soon as the limit can be reached. With ten configured systems and the
  constructor's \<open>maxTabs = 10\<close>: after the welcome tab and nine systems the registry is
  full; opening the tenth selects the tab of \<open>s0\<close> for eviction, but \<open>closeTab\<close> stops at
  its confirmation dialog, and the new tab is inserted: eleven tabs when \<open>openTab\<close>
  returns, and still eleven when the user cancels the dialog. In the scenario of the
  specification, with the limit at 2 on the shipped page, the three calls leave four tabs:
  at the second call no tab can be selected (the welcome tab is not closable, the tab of
  \<open>writing\<close> is active), at the third the close of \<open>writing\<close> waits for its confirmation.
\<close>

theorem capacity_exceeded:
  "maxTabs (tab_run ten_systems (TabManager True) open_ten) = 10 \<and>
   length (tabs (tab_run ten_systems (TabManager True) open_ten)) = 11 \<and>
   closeDialogs (tab_run ten_systems (TabManager True) open_ten) = [TabId ''s0'' 1] \<and>
   length (tabs (tab_run ten_systems (TabManager True)
      (open_ten @ [(11, AnswerCloseDialog (TabId ''s0'' 1) None)]))) = 11 \<and>
   maxTabs (tab_run PortalConfig capacity_two scenario_run) = 2 \<and>
   map fst (tabs (tab_run PortalConfig capacity_two (take 2 scenario_run)))
     = [WelcomeId, TabId ''writing'' 1, TabId ''case2pg'' 2] \<and>
   closeDialogs (tab_run PortalConfig capacity_two (take 2 scenario_run)) = [] \<and>
   map fst (tabs (tab_run PortalConfig capacity_two scenario_run))
     = [WelcomeId, TabId ''writing'' 1, TabId ''case2pg'' 2, TabId ''censor'' 3] \<and>
   closeDialogs (tab_run PortalConfig capacity_two scenario_run) = [TabId ''writing'' 1]"
  by code_simp

end
